theory Spec2Isabelle
  imports Main "HOL-Library.Extended_Nat" "HOL-Library.Multiset"
begin

section \<open>GitHub Repo Analyst: the context-assembly and summarisation pipeline of app.py\<close>

text \<open>
  The theory embeds the four core functions of \<^verbatim>\<open>src/app.py\<close>:
  \<^verbatim>\<open>validate_repo_url\<close>, \<^verbatim>\<open>get_important_file_content\<close>, \<^verbatim>\<open>fetch_repo_data\<close> and
  \<^verbatim>\<open>run_ai_analysis\<close>. A Python \<^verbatim>\<open>str\<close> is a \<^typ>\<open>string\<close>, one list element standing
  for one character; a Python \<^verbatim>\<open>int\<close> is an \<^typ>\<open>int\<close>. What the forge and the AI
  service answer is data handed to the functions; every \<^verbatim>\<open>raise\<close> is a left injection.
\<close>

subsection \<open>Exceptions that leave the pipeline\<close>

text \<open>
  \<^verbatim>\<open>validate_repo_url\<close> raises \<^verbatim>\<open>ValueError(msg)\<close>; \<^verbatim>\<open>fetch_repo_data\<close> and
  \<^verbatim>\<open>run_ai_analysis\<close> raise a plain \<^verbatim>\<open>Exception(msg)\<close>. An exception of any other
  class that passes through a function unhandled is \<open>OtherException\<close> with the name of
  its class and \<^verbatim>\<open>str(e)\<close>.
\<close>

datatype py_exception = ValueError string | Exception string | OtherException string string

definition nl :: string where
  "nl = [CHR 0x0A]"

subsection \<open>validate_repo_url (app.py, lines 18-24)\<close>

text \<open>
  \<^verbatim>\<open>re.match(r"https?://github\.com/([^/]+)/([^/]+)", url)\<close> matches at the start of
  \<^verbatim>\<open>url\<close> and does not have to reach its end. The matcher below follows the pattern
  from left to right: a literal consumes its characters; the optional \<^verbatim>\<open>s\<close> is tried
  first and given up when the rest of the pattern fails after it (backtracking);
  \<^verbatim>\<open>[^/]+\<close> is greedy and takes the longest run of characters other than the
  slash, which is the only length that can be followed by a slash or by the end of the match.
\<close>

fun match_literal :: "string \<Rightarrow> string \<Rightarrow> string option" where
  "match_literal [] s = Some s"
| "match_literal (c # cs) [] = None"
| "match_literal (c # cs) (d # ds) = (if c = d then match_literal cs ds else None)"

definition match_group :: "string \<Rightarrow> (string \<times> string) option" where
  "match_group s =
     (let g = takeWhile (\<lambda>c. c \<noteq> CHR ''/'') s
      in if g = [] then None else Some (g, dropWhile (\<lambda>c. c \<noteq> CHR ''/'') s))"

definition match_tail :: "string \<Rightarrow> (string \<times> string) option" where
  "match_tail s =
     (case match_literal ''://github.com/'' s of
        None \<Rightarrow> None
      | Some s1 \<Rightarrow>
          (case match_group s1 of
             None \<Rightarrow> None
           | Some (g1, s2) \<Rightarrow>
               (case match_literal ''/'' s2 of
                  None \<Rightarrow> None
                | Some s3 \<Rightarrow>
                    (case match_group s3 of
                       None \<Rightarrow> None
                     | Some (g2, s4) \<Rightarrow> Some (g1, g2)))))"

definition re_match :: "string \<Rightarrow> (string \<times> string) option" where
  "re_match url =
     (case match_literal ''http'' url of
        None \<Rightarrow> None
      | Some s0 \<Rightarrow>
          (case (case match_literal ''s'' s0 of None \<Rightarrow> None | Some s1 \<Rightarrow> match_tail s1) of
             Some groups \<Rightarrow> Some groups
           | None \<Rightarrow> match_tail s0))"

definition invalid_url_message :: string where
  "invalid_url_message =
     ''Invalid GitHub URL. Please use the format: https://github.com/owner/repo''"

definition validate_repo_url :: "string \<Rightarrow> py_exception + string" where
  "validate_repo_url url =
     (case re_match url of
        None \<Rightarrow> Inl (ValueError invalid_url_message)
      | Some (g1, g2) \<Rightarrow> Inr (g1 @ ''/'' @ g2))"

text \<open>
  The shape of URL the specification speaks of: a scheme, the forge host
  \<^verbatim>\<open>github.com\<close>, an owner, a repository and, optionally, further path segments.
\<close>

definition github_url :: "string \<Rightarrow> string \<Rightarrow> string \<Rightarrow> string \<Rightarrow> string" where
  "github_url scheme owner repo rest = scheme @ ''://github.com/'' @ owner @ ''/'' @ repo @ rest"

definition path_component :: "string \<Rightarrow> bool" where
  "path_component s \<longleftrightarrow> s \<noteq> [] \<and> CHR ''/'' \<notin> set s"

definition trailing_segments :: "string \<Rightarrow> bool" where
  "trailing_segments rest \<longleftrightarrow> (case rest of [] \<Rightarrow> True | c # cs \<Rightarrow> c = CHR ''/'')"

definition url_parts :: "string \<Rightarrow> string \<Rightarrow> string \<Rightarrow> bool" where
  "url_parts owner repo rest \<longleftrightarrow>
     path_component owner \<and> path_component repo \<and> trailing_segments rest"

text \<open>
  The pattern as the claim words it, \<^verbatim>\<open>https://<host>/<owner>/<repo>[...]\<close> for the
  configured host: the scheme is \<^verbatim>\<open>https\<close>.
\<close>

definition https_repo_url :: "string \<Rightarrow> bool" where
  "https_repo_url url \<longleftrightarrow>
     (\<exists>owner repo rest. url_parts owner repo rest \<and> url = github_url ''https'' owner repo rest)"

text \<open>The strings the code accepts: the scheme is \<^verbatim>\<open>http\<close> or \<^verbatim>\<open>https\<close>.\<close>

definition http_or_https :: "string \<Rightarrow> bool" where
  "http_or_https scheme \<longleftrightarrow> scheme = ''http'' \<or> scheme = ''https''"

definition accepted_repo_url :: "string \<Rightarrow> bool" where
  "accepted_repo_url url \<longleftrightarrow>
     (\<exists>scheme owner repo rest.
        http_or_https scheme \<and> url_parts owner repo rest \<and> url = github_url scheme owner repo rest)"

subsection \<open>What the forge answers\<close>

text \<open>
  A \<^verbatim>\<open>GithubException\<close> is read through \<^verbatim>\<open>e.status\<close> and \<^verbatim>\<open>str(e)\<close> only.
\<close>

record github_exception =
  status :: int
  str_e :: string

text \<open>
  The ways \<^verbatim>\<open>content_file.decoded_content.decode('utf-8')\<close> can end: a text, a
  \<^verbatim>\<open>UnicodeDecodeError\<close>, a \<^verbatim>\<open>GithubException\<close> of the fetch behind
  \<^verbatim>\<open>decoded_content\<close>, or an exception that is neither of the two (the
  \<^verbatim>\<open>AssertionError\<close> of \<^verbatim>\<open>decoded_content\<close> on an entry without base64 content, a
  failure of the connection), which the handler of line 45 does not catch.
\<close>

datatype decoding =
    Text string
  | UnicodeDecodeError
  | GithubException github_exception
  | Raises py_exception

text \<open>
  An entry of \<^verbatim>\<open>repo.get_contents("")\<close>. The field \<open>size_bytes\<close> is the attribute
  \<^verbatim>\<open>size\<close>; \<open>decoded_content\<close> is what reading the content would give, and is
  looked at only where the source reads it.
\<close>

record content_file =
  name :: string
  path :: string
  type :: string
  size_bytes :: int
  decoded_content :: decoding

text \<open>
  The repository object of the forge client: its attributes, and for each of the three
  calls \<^verbatim>\<open>get_languages()\<close>, \<^verbatim>\<open>get_topics()\<close> and \<^verbatim>\<open>get_contents("")\<close> either the
  \<^verbatim>\<open>GithubException\<close> it raises or what it returns.
\<close>

record repository =
  repo_name :: string
  repo_owner_login :: string
  repo_description :: "string option"
  repo_html_url :: string
  repo_language :: "string option"
  repo_stargazers_count :: int
  repo_forks_count :: int
  get_languages :: "github_exception + (string \<times> int) list"
  get_topics :: "github_exception + string list"
  get_contents :: "github_exception + content_file list"

text \<open>The client \<^verbatim>\<open>g\<close>: \<^verbatim>\<open>g.get_repo(repo_name)\<close> raises or returns a repository.\<close>

type_synonym github = "string \<Rightarrow> github_exception + repository"

subsection \<open>Python helpers\<close>

text \<open>\<^verbatim>\<open>str(n)\<close> of an integer, in decimal.\<close>

fun str_nat :: "nat \<Rightarrow> string" where
  "str_nat n =
     (if n < 10 then [''0123456789'' ! n]
      else str_nat (n div 10) @ [''0123456789'' ! (n mod 10)])"

declare str_nat.simps [simp del]

definition str_int :: "int \<Rightarrow> string" where
  "str_int i = (if i < 0 then ''-'' @ str_nat (nat (- i)) else str_nat (nat i))"

text \<open>
  The slice \<^verbatim>\<open>xs[:n]\<close>: a negative \<^verbatim>\<open>n\<close> counts from the end of the list.
\<close>

definition slice_to :: "'a list \<Rightarrow> int \<Rightarrow> 'a list" where
  "slice_to xs n = (if n < 0 then take (nat (int (length xs) + n)) xs else take (nat n) xs)"

text \<open>
  A \<^verbatim>\<open>dict\<close> keeps its keys in insertion order; storing under a key that is already
  there replaces the value and leaves the key in its place.
\<close>

definition dict_set :: "(string \<times> 'v) list \<Rightarrow> string \<Rightarrow> 'v \<Rightarrow> (string \<times> 'v) list" where
  "dict_set d k v =
     (case map_of d k of
        None \<Rightarrow> d @ [(k, v)]
      | Some old \<Rightarrow> map (\<lambda>(k', v'). if k' = k then (k', v) else (k', v')) d)"

text \<open>\<^verbatim>\<open>xs.index(x)\<close> where \<^verbatim>\<open>x in xs\<close>: the first position of \<^verbatim>\<open>x\<close>.\<close>

fun index_of :: "'a \<Rightarrow> 'a list \<Rightarrow> nat option" where
  "index_of x [] = None"
| "index_of x (y # ys) = (if x = y then Some 0 else map_option Suc (index_of x ys))"

text \<open>\<^verbatim>\<open>sep.join(xs)\<close>.\<close>

fun join :: "string \<Rightarrow> string list \<Rightarrow> string" where
  "join sep [] = []"
| "join sep [x] = x"
| "join sep (x # y # ys) = x @ sep @ join sep (y # ys)"

text \<open>\<^verbatim>\<open>x or default\<close> on an optional string: \<^verbatim>\<open>None\<close> and the empty string are falsy.\<close>

definition py_or :: "string option \<Rightarrow> string \<Rightarrow> string" where
  "py_or x d = (case x of None \<Rightarrow> d | Some s \<Rightarrow> if s = [] then d else s)"

subsection \<open>get_important_file_content (app.py, lines 26-49)\<close>

definition priority_files :: "string list" where
  "priority_files =
     [''README.md'', ''pyproject.toml'', ''package.json'', ''requirements.txt'',
      ''main.py'', ''app.py'', ''index.js'', ''docker-compose.yml'', ''Dockerfile'',
      ''pom.xml'', ''build.gradle'']"

text \<open>
  The sort key \<^verbatim>\<open>priority_files.index(f.name) if f.name in priority_files else float('inf')\<close>:
  an index, or infinity.
\<close>

definition priority_key :: "content_file \<Rightarrow> enat" where
  "priority_key f = (case index_of (name f) priority_files of Some i \<Rightarrow> enat i | None \<Rightarrow> \<infinity>)"

text \<open>
  Lines 36-37: the entries of type \<^verbatim>\<open>file\<close>, sorted by the key. \<^verbatim>\<open>list.sort\<close> is
  stable, and so is \<^const>\<open>sort_key\<close>, an insertion sort.
\<close>

definition files_to_check :: "content_file list \<Rightarrow> content_file list" where
  "files_to_check contents = sort_key priority_key (filter (\<lambda>f. type f = ''file'') contents)"

text \<open>The files the loop of line 38 visits: \<^verbatim>\<open>files_to_check[:max_files]\<close>.\<close>

definition selected_files :: "content_file list \<Rightarrow> int \<Rightarrow> content_file list" where
  "selected_files contents max_files = slice_to (files_to_check contents) max_files"

definition too_large :: "int \<Rightarrow> string" where
  "too_large max_file_size = ''--- File content too large (>'' @ str_int max_file_size @ '' bytes) ---''"

definition could_not_decode :: string where
  "could_not_decode = ''--- Could not decode file content ---''"

text \<open>
  One turn of the loop, lines 39-46. The state is the dictionary \<^verbatim>\<open>file_contents\<close>
  together with the paths whose content has been read so far; the second component is
  not in the source and records where \<^verbatim>\<open>decoded_content\<close> is evaluated. An exception
  other than the two of line 45 leaves the loop.
\<close>

definition read_file ::
  "int \<Rightarrow> (string \<times> string) list \<times> string list \<Rightarrow> content_file
     \<Rightarrow> py_exception + (string \<times> string) list \<times> string list" where
  "read_file max_file_size st content_file =
     (case st of (file_contents, fetched) \<Rightarrow>
        if size_bytes content_file > max_file_size
        then Inr (dict_set file_contents (path content_file) (too_large max_file_size), fetched)
        else (case decoded_content content_file of
                Text decoded \<Rightarrow>
                  Inr (dict_set file_contents (path content_file) decoded,
                       fetched @ [path content_file])
              | UnicodeDecodeError \<Rightarrow>
                  Inr (dict_set file_contents (path content_file) could_not_decode,
                       fetched @ [path content_file])
              | GithubException e \<Rightarrow>
                  Inr (dict_set file_contents (path content_file) could_not_decode,
                       fetched @ [path content_file])
              | Raises e \<Rightarrow> Inl e))"

text \<open>The loop of line 38 over the selected files; it stops at the first exception.\<close>

fun read_files ::
  "int \<Rightarrow> (string \<times> string) list \<times> string list \<Rightarrow> content_file list
     \<Rightarrow> py_exception + (string \<times> string) list \<times> string list" where
  "read_files max_file_size st [] = Inr st"
| "read_files max_file_size st (content_file # rest) =
     (case read_file max_file_size st content_file of
        Inl e \<Rightarrow> Inl e
      | Inr st' \<Rightarrow> read_files max_file_size st' rest)"

record selection =
  file_contents :: "(string \<times> string) list"
  fetched :: "string list"
  warnings :: "string list"

text \<open>
  The function returns the dictionary (with the record of reads and the warnings shown),
  or raises what left the loop: the handler of line 47 catches a \<^verbatim>\<open>GithubException\<close>
  only, which in the loop is already caught at line 45.
\<close>

definition get_important_file_content ::
  "repository \<Rightarrow> int \<Rightarrow> int \<Rightarrow> py_exception + selection" where
  "get_important_file_content repo max_files max_file_size =
     (case get_contents repo of
        Inl e \<Rightarrow>
          Inr \<lparr>file_contents = [], fetched = [],
               warnings = [''Could not fetch some file contents: '' @ str_e e]\<rparr>
      | Inr contents \<Rightarrow>
          (case read_files max_file_size ([], []) (selected_files contents max_files) of
             Inl e \<Rightarrow> Inl e
           | Inr (d, r) \<Rightarrow> Inr \<lparr>file_contents = d, fetched = r, warnings = []\<rparr>))"

text \<open>
  Two notions for the statements below: what the loop stores for a file it visits, if
  anything, and whether reading the file raises an exception that leaves the loop.
\<close>

definition entry_of :: "int \<Rightarrow> content_file \<Rightarrow> string option" where
  "entry_of max_file_size f =
     (if size_bytes f > max_file_size then Some (too_large max_file_size)
      else (case decoded_content f of
              Text decoded \<Rightarrow> Some decoded
            | UnicodeDecodeError \<Rightarrow> Some could_not_decode
            | GithubException e \<Rightarrow> Some could_not_decode
            | Raises e \<Rightarrow> None))"

definition read_escapes :: "int \<Rightarrow> content_file \<Rightarrow> bool" where
  "read_escapes max_file_size f \<longleftrightarrow> entry_of max_file_size f = None"

subsection \<open>fetch_repo_data (app.py, lines 51-69)\<close>

record repo_data =
  rd_name :: string
  rd_owner :: string
  rd_description :: string
  rd_url :: string
  rd_language :: string
  rd_tech_stack :: "string list"
  rd_stars :: int
  rd_forks :: int
  rd_topics :: "string list"
  rd_important_files :: "(string \<times> string) list"

definition not_found_message :: string where
  "not_found_message = ''Repository not found. Please check the URL.''"

definition authentication_message :: string where
  "authentication_message = ''Authentication error. Please check your GitHub token.''"

text \<open>The handler of lines 66-69.\<close>

definition forge_error :: "github_exception \<Rightarrow> py_exception" where
  "forge_error e =
     (if status e = 404 then Exception not_found_message
      else if status e = 401 then Exception authentication_message
      else Exception (''Error fetching repo data: '' @ str_e e))"

text \<open>
  The calls are made in the order of the source: \<^verbatim>\<open>get_repo\<close>, \<^verbatim>\<open>get_languages\<close>,
  the file selection with its defaults 7 and 15000, and \<^verbatim>\<open>get_topics\<close> while the
  dictionary is built. An exception that leaves the file selection is no
  \<^verbatim>\<open>GithubException\<close> and passes the handler unchanged. The second component of the
  result is the list of warnings shown up to the point of return.
\<close>

definition fetch_repo_data :: "github \<Rightarrow> string \<Rightarrow> (py_exception + repo_data) \<times> string list" where
  "fetch_repo_data g repo_name_arg =
     (case g repo_name_arg of
        Inl e \<Rightarrow> (Inl (forge_error e), [])
      | Inr repo \<Rightarrow>
          (case get_languages repo of
             Inl e \<Rightarrow> (Inl (forge_error e), [])
           | Inr languages \<Rightarrow>
               (let tech_stack = map fst languages
                in case get_important_file_content repo 7 15000 of
                     Inl escaped \<Rightarrow> (Inl escaped, [])
                   | Inr important_files \<Rightarrow>
                       (case get_topics repo of
                          Inl e \<Rightarrow> (Inl (forge_error e), warnings important_files)
                        | Inr topics \<Rightarrow>
                            (Inr \<lparr>rd_name = repo_name repo, rd_owner = repo_owner_login repo,
                                  rd_description =
                                    py_or (repo_description repo) ''No description provided.'',
                                  rd_url = repo_html_url repo,
                                  rd_language = py_or (repo_language repo) ''Not specified'',
                                  rd_tech_stack = tech_stack,
                                  rd_stars = repo_stargazers_count repo,
                                  rd_forks = repo_forks_count repo, rd_topics = topics,
                                  rd_important_files = file_contents important_files\<rparr>,
                             warnings important_files)))))"

subsection \<open>run_ai_analysis (app.py, lines 75-123)\<close>

text \<open>
  Lines 82-91. The slice \<^verbatim>\<open>content[:1500]\<close> is the content portion of a file's block.
\<close>

definition context_header :: "repo_data \<Rightarrow> string" where
  "context_header rd =
     nl @ ''    Repository Name: '' @ rd_name rd @
     nl @ ''    Description: '' @ rd_description rd @
     nl @ ''    Primary Language: '' @ rd_language rd @
     nl @ ''    Topics: '' @ join '', '' (rd_topics rd) @
     nl @ ''    '' @
     nl @ ''    Key File Contents:'' @
     nl @ ''    ''"

definition content_portion :: "string \<Rightarrow> string" where
  "content_portion content = slice_to content 1500"

definition file_block :: "string \<Rightarrow> string \<Rightarrow> string" where
  "file_block p content =
     nl @ ''--- Start of '' @ p @ '' ---'' @ nl @ content_portion content @
     nl @ ''--- End of '' @ p @ '' ---'' @ nl"

definition build_context :: "repo_data \<Rightarrow> string" where
  "build_context rd =
     foldl (\<lambda>context (p, content). context @ file_block p content)
       (context_header rd) (rd_important_files rd)"

text \<open>
  The agent, the workflow and the one request \<^verbatim>\<open>summarize_text(...).run_tasks()\<close>.
\<close>

record agent =
  agent_name :: string
  instructions :: string
  model :: string
  api_key :: string
  base_url :: string

record request =
  objective :: string
  client_mode :: bool
  max_words :: int
  agents :: "agent list"

definition quote :: string where
  "quote = [CHR 0x27]"

definition analyst_instructions :: string where
  "analyst_instructions =
     nl @ ''            You are an expert GitHub repository analyst who will use the `summarize_text` tool.'' @
     nl @ ''            - For the '' @ quote @ ''summary'' @ quote @
       '' parameter, you MUST provide a detailed overview covering the project'' @ quote @
       ''s purpose, main functionality, and target audience.'' @
     nl @ ''            - For the '' @ quote @ ''key_points'' @ quote @
       '' parameter, you MUST create a bulleted list of the top 3-5 technical features, the core technologies used, and the essential '' @
       quote @ ''getting started'' @ quote @ '' commands.'' @
     nl @ ''            ''"

definition analyst_agent :: "string \<Rightarrow> agent" where
  "analyst_agent key =
     \<lparr>agent_name = ''Expert Repo Analyst'', instructions = analyst_instructions,
      model = ''meta-llama/Llama-3.3-70B-Instruct'', api_key = key,
      base_url = ''https://api.intelligence.io.solutions/api/v1''\<rparr>"

definition ai_request :: "repo_data \<Rightarrow> string \<Rightarrow> request" where
  "ai_request rd key =
     \<lparr>objective =
        ''Please provide a comprehensive analysis of the following repository context:'' @ nl @
        build_context rd,
      client_mode = False, max_words = 600, agents = [analyst_agent key]\<rparr>"

text \<open>
  What the round trip hands back is a Python value, of which the source reads
  \<^verbatim>\<open>[...]["results"]["summarize_text"]\<close> and then the attributes \<^verbatim>\<open>summary\<close> and
  \<^verbatim>\<open>key_points\<close>. An object carries its class name and its attributes. A failed
  subscription or attribute access raises; the left injection holds \<^verbatim>\<open>str(e)\<close> of the
  exception, in the wording of CPython 3.11.
\<close>

datatype pyval =
    PyNone
  | PyStr string
  | PyList "pyval list"
  | PyDict "(string \<times> pyval) list"
  | PyObj string "(string \<times> pyval) list"

fun py_type_name :: "pyval \<Rightarrow> string" where
  "py_type_name PyNone = ''NoneType''"
| "py_type_name (PyStr s) = ''str''"
| "py_type_name (PyList xs) = ''list''"
| "py_type_name (PyDict items) = ''dict''"
| "py_type_name (PyObj cls attrs) = cls"

fun py_getitem :: "pyval \<Rightarrow> string \<Rightarrow> string + pyval" where
  "py_getitem (PyDict items) key =
     (case map_of items key of Some v \<Rightarrow> Inr v | None \<Rightarrow> Inl (quote @ key @ quote))"
| "py_getitem (PyStr s) key = Inl (''string indices must be integers, not '' @ quote @ ''str'' @ quote)"
| "py_getitem (PyList xs) key = Inl ''list indices must be integers or slices, not str''"
| "py_getitem v key = Inl (quote @ py_type_name v @ quote @ '' object is not subscriptable'')"

definition no_attribute :: "string \<Rightarrow> string \<Rightarrow> string" where
  "no_attribute cls a = quote @ cls @ quote @ '' object has no attribute '' @ quote @ a @ quote"

fun py_getattr :: "pyval \<Rightarrow> string \<Rightarrow> string + pyval" where
  "py_getattr (PyObj cls attrs) a =
     (case map_of attrs a of Some v \<Rightarrow> Inr v | None \<Rightarrow> Inl (no_attribute cls a))"
| "py_getattr v a = Inl (no_attribute (py_type_name v) a)"

text \<open>
  The service: for a request, the text of the exception the round trip raises (a
  transport failure, a rejected key), or the value it returns.
\<close>

type_synonym ai_service = "request \<Rightarrow> string + pyval"

record ai_results =
  overview :: pyval
  features :: pyval

definition ai_error_prefix :: string where
  "ai_error_prefix =
     ''An error occurred with the AI analysis. Please check your IO Intelligence API key. Details: ''"

definition ai_error :: "string \<Rightarrow> py_exception" where
  "ai_error details = Exception (ai_error_prefix @ details)"

text \<open>Line 113: \<^verbatim>\<open>(await ...run_tasks())["results"]["summarize_text"]\<close>.\<close>

definition results_object :: "pyval \<Rightarrow> string + pyval" where
  "results_object response =
     (case py_getitem response ''results'' of
        Inl details \<Rightarrow> Inl details
      | Inr results \<Rightarrow> py_getitem results ''summarize_text'')"

text \<open>
  The function returns its result together with the requests it has sent to the
  service, in order. Everything from line 93 on is inside the \<^verbatim>\<open>try\<close>, whose handler
  turns any exception into the one \<^verbatim>\<open>Exception\<close> of line 123.
\<close>

definition run_ai_analysis ::
  "repo_data \<Rightarrow> string \<Rightarrow> ai_service \<Rightarrow> (py_exception + ai_results) \<times> request list" where
  "run_ai_analysis rd key service =
     (let req = ai_request rd key
      in (case service req of
            Inl details \<Rightarrow> Inl (ai_error details)
          | Inr response \<Rightarrow>
              (case results_object response of
                 Inl details \<Rightarrow> Inl (ai_error details)
               | Inr obj \<Rightarrow>
                   (case py_getattr obj ''summary'' of
                      Inl details \<Rightarrow> Inl (ai_error details)
                    | Inr summary \<Rightarrow>
                        (case py_getattr obj ''key_points'' of
                           Inl details \<Rightarrow> Inl (ai_error details)
                         | Inr key_points \<Rightarrow>
                             Inr \<lparr>overview = summary, features = key_points\<rparr>))),
          [req]))"

text \<open>
  The response shape the source expects: a dictionary whose entry \<^verbatim>\<open>results\<close> is a
  dictionary whose entry \<^verbatim>\<open>summarize_text\<close> is an object with the attributes
  \<^verbatim>\<open>summary\<close> and \<^verbatim>\<open>key_points\<close>.
\<close>

definition expected_shape :: "pyval \<Rightarrow> bool" where
  "expected_shape response =
     (case response of
        PyDict outer \<Rightarrow>
          (case map_of outer ''results'' of
             Some (PyDict results) \<Rightarrow>
               (case map_of results ''summarize_text'' of
                  Some (PyObj cls attrs) \<Rightarrow>
                    map_of attrs ''summary'' \<noteq> None \<and> map_of attrs ''key_points'' \<noteq> None
                | _ \<Rightarrow> False)
           | _ \<Rightarrow> False)
      | _ \<Rightarrow> False)"

text \<open>A response of the expected shape around a summary object.\<close>

definition summary_response :: "(string \<times> pyval) list \<Rightarrow> pyval" where
  "summary_response attrs =
     PyDict [(''results'', PyDict [(''summarize_text'', PyObj ''SummaryResult'' attrs)])]"

subsection \<open>Concrete inputs\<close>

text \<open>
  A regular file of a root listing, where the path is the name, and a repository around a
  listing, after the scenario \<^verbatim>\<open>octocat/hello-world\<close> of the specification.
\<close>

definition demo_file :: "string \<Rightarrow> int \<Rightarrow> decoding \<Rightarrow> content_file" where
  "demo_file n s c = \<lparr>name = n, path = n, type = ''file'', size_bytes = s, decoded_content = c\<rparr>"

definition demo_repo :: "github_exception + content_file list \<Rightarrow> repository" where
  "demo_repo listing =
     \<lparr>repo_name = ''hello-world'', repo_owner_login = ''octocat'',
      repo_description = Some ''My first repo'',
      repo_html_url = ''https://github.com/octocat/hello-world'',
      repo_language = Some ''Ruby'', repo_stargazers_count = 3, repo_forks_count = 1,
      get_languages = Inr [(''Ruby'', 200)], get_topics = Inr [''demo''],
      get_contents = listing\<rparr>"

definition demo_repo_data :: repo_data where
  "demo_repo_data =
     \<lparr>rd_name = ''hello-world'', rd_owner = ''octocat'', rd_description = ''My first repo'',
      rd_url = ''https://github.com/octocat/hello-world'', rd_language = ''Ruby'',
      rd_tech_stack = [''Ruby''], rd_stars = 3, rd_forks = 1, rd_topics = [''demo''],
      rd_important_files = [(''README.md'', ''Hello'')]\<rparr>"

text \<open>
  Three services: one answers with two key points, one with an empty list of key points,
  one with a summary and no \<^verbatim>\<open>key_points\<close> attribute.
\<close>

definition demo_service :: ai_service where
  "demo_service req =
     Inr (summary_response
       [(''summary'', PyStr ''A demo repository''),
        (''key_points'', PyList [PyStr ''Simple structure'', PyStr ''Ruby based''])])"

definition empty_key_points_service :: ai_service where
  "empty_key_points_service req =
     Inr (summary_response [(''summary'', PyStr ''A demo repository''), (''key_points'', PyList [])])"

definition no_key_points_service :: ai_service where
  "no_key_points_service req = Inr (summary_response [(''summary'', PyStr ''A demo repository'')])"

definition demo_github :: "github_exception + content_file list \<Rightarrow> github" where
  "demo_github listing repo_id = Inr (demo_repo listing)"

section \<open>Properties\<close>

subsection \<open>The URL matcher\<close>

lemma match_literal_append: "match_literal p (p @ s) = Some s"
  by (induction p) simp_all

lemma match_literal_Some: "match_literal p s = Some r \<Longrightarrow> s = p @ r"
proof (induction p s rule: match_literal.induct)
  case (3 c cs d ds)
  then show ?case by (simp split: if_splits)
qed simp_all

lemma match_group_component:
  assumes "path_component g" and "trailing_segments rest"
  shows "match_group (g @ rest) = Some (g, rest)"
proof -
  have no_slash: "\<forall>c\<in>set g. c \<noteq> CHR ''/''"
    using assms(1) by (auto simp: path_component_def)
  have stop: "rest = [] \<or> \<not> (hd rest \<noteq> CHR ''/'')"
    using assms(2) by (cases rest) (simp_all add: trailing_segments_def)
  have tw: "takeWhile (\<lambda>c. c \<noteq> CHR ''/'') (g @ rest) = g"
    using no_slash stop by (cases rest) (simp_all add: takeWhile_append2)
  have dw: "dropWhile (\<lambda>c. c \<noteq> CHR ''/'') (g @ rest) = rest"
    using no_slash stop by (cases rest) (simp_all add: dropWhile_append2)
  show ?thesis
    using assms(1) by (simp add: match_group_def tw dw path_component_def)
qed

lemma trailing_segments_dropWhile:
  "trailing_segments (dropWhile (\<lambda>c. c \<noteq> CHR ''/'') s)"
  by (induction s) (simp_all add: trailing_segments_def)

lemma match_group_Some:
  assumes "match_group s = Some (g, r)"
  shows "s = g @ r \<and> path_component g \<and> trailing_segments r"
proof -
  let ?P = "\<lambda>c. c \<noteq> CHR ''/''"
  have ne: "takeWhile ?P s \<noteq> []"
    using assms unfolding match_group_def Let_def by (cases "takeWhile ?P s = []") simp_all
  with assms have g: "g = takeWhile ?P s" and r: "r = dropWhile ?P s"
    unfolding match_group_def Let_def by simp_all
  have "CHR ''/'' \<notin> set g"
  proof
    assume "CHR ''/'' \<in> set g"
    then have "CHR ''/'' \<in> set (takeWhile ?P s)"
      unfolding g .
    from set_takeWhileD[OF this] show False
      by simp
  qed
  moreover have "trailing_segments r"
    unfolding r by (rule trailing_segments_dropWhile)
  moreover have "s = g @ r"
    unfolding g r by simp
  moreover have "g \<noteq> []"
    using ne unfolding g .
  ultimately show ?thesis
    unfolding path_component_def by blast
qed

lemma match_tail_parts:
  assumes "url_parts owner repo rest"
  shows "match_tail (''://github.com/'' @ owner @ ''/'' @ repo @ rest) = Some (owner, repo)"
proof -
  have o: "match_group (owner @ ''/'' @ repo @ rest) = Some (owner, ''/'' @ repo @ rest)"
    using assms by (intro match_group_component) (simp_all add: url_parts_def trailing_segments_def)
  have r: "match_group (repo @ rest) = Some (repo, rest)"
    using assms by (intro match_group_component) (simp_all add: url_parts_def)
  have lit: "match_literal ''://github.com/'' (''://github.com/'' @ owner @ ''/'' @ repo @ rest)
               = Some (owner @ ''/'' @ repo @ rest)"
    by (rule match_literal_append)
  have slash: "match_literal ''/'' (''/'' @ repo @ rest) = Some (repo @ rest)"
    by (rule match_literal_append)
  show ?thesis
    unfolding match_tail_def lit option.case o prod.case slash r ..
qed

lemma match_tail_Some:
  assumes "match_tail s = Some (g1, g2)"
  shows "\<exists>rest. url_parts g1 g2 rest \<and> s = ''://github.com/'' @ g1 @ ''/'' @ g2 @ rest"
proof -
  from assms obtain s1 s2 s3 s4 where
    a: "match_literal ''://github.com/'' s = Some s1" and
    b: "match_group s1 = Some (g1, s2)" and
    c: "match_literal ''/'' s2 = Some s3" and
    d: "match_group s3 = Some (g2, s4)"
    by (auto simp: match_tail_def split: option.splits prod.splits)
  have "s = ''://github.com/'' @ s1" using a by (rule match_literal_Some)
  moreover have "s1 = g1 @ s2" "path_component g1" using match_group_Some[OF b] by simp_all
  moreover have "s2 = ''/'' @ s3" using c by (rule match_literal_Some)
  moreover have "s3 = g2 @ s4" "path_component g2" "trailing_segments s4"
    using match_group_Some[OF d] by simp_all
  ultimately have "url_parts g1 g2 s4 \<and> s = ''://github.com/'' @ g1 @ ''/'' @ g2 @ s4"
    by (simp add: url_parts_def)
  then show ?thesis ..
qed

lemma re_match_https:
  assumes t: "match_tail (''://github.com/'' @ owner @ ''/'' @ repo @ rest) = Some (owner, repo)"
  shows "re_match (''https'' @ ''://github.com/'' @ owner @ ''/'' @ repo @ rest) = Some (owner, repo)"
proof -
  have 1: "match_literal ''http'' (''http'' @ ''s'' @ ''://github.com/'' @ owner @ ''/'' @ repo @ rest)
            = Some (''s'' @ ''://github.com/'' @ owner @ ''/'' @ repo @ rest)"
    by (rule match_literal_append)
  have 2: "match_literal ''s'' (''s'' @ ''://github.com/'' @ owner @ ''/'' @ repo @ rest)
            = Some (''://github.com/'' @ owner @ ''/'' @ repo @ rest)"
    by (rule match_literal_append)
  have e: "''https'' @ ''://github.com/'' @ owner @ ''/'' @ repo @ rest
             = ''http'' @ ''s'' @ ''://github.com/'' @ owner @ ''/'' @ repo @ rest"
    by simp
  show ?thesis
    unfolding re_match_def e 1 option.case 2 t ..
qed

lemma re_match_http:
  assumes t: "match_tail (''://github.com/'' @ owner @ ''/'' @ repo @ rest) = Some (owner, repo)"
  shows "re_match (''http'' @ ''://github.com/'' @ owner @ ''/'' @ repo @ rest) = Some (owner, repo)"
proof -
  have 1: "match_literal ''http'' (''http'' @ ''://github.com/'' @ owner @ ''/'' @ repo @ rest)
            = Some (''://github.com/'' @ owner @ ''/'' @ repo @ rest)"
    by (rule match_literal_append)
  have 2: "match_literal ''s'' (''://github.com/'' @ owner @ ''/'' @ repo @ rest) = None"
    by simp
  show ?thesis
    unfolding re_match_def 1 option.case 2 t ..
qed

lemma re_match_accepts:
  assumes "http_or_https scheme" and "url_parts owner repo rest"
  shows "re_match (github_url scheme owner repo rest) = Some (owner, repo)"
proof -
  note t = match_tail_parts[OF assms(2)]
  from assms(1) consider "scheme = ''http''" | "scheme = ''https''"
    unfolding http_or_https_def by blast
  then show ?thesis
  proof cases
    case 1
    show ?thesis
      unfolding github_url_def 1 using t by (rule re_match_http)
  next
    case 2
    show ?thesis
      unfolding github_url_def 2 using t by (rule re_match_https)
  qed
qed

lemma re_match_Some:
  assumes "re_match url = Some (g1, g2)"
  shows "\<exists>scheme rest. http_or_https scheme \<and> url_parts g1 g2 rest \<and> url = github_url scheme g1 g2 rest"
proof -
  from assms obtain s0 where s0: "match_literal ''http'' url = Some s0"
    by (auto simp: re_match_def split: option.splits)
  have url: "url = ''http'' @ s0" using s0 by (rule match_literal_Some)
  show ?thesis
  proof (cases "match_literal ''s'' s0")
    case None
    with assms s0 have "match_tail s0 = Some (g1, g2)"
      by (simp add: re_match_def)
    then obtain rest where "url_parts g1 g2 rest" "s0 = ''://github.com/'' @ g1 @ ''/'' @ g2 @ rest"
      using match_tail_Some by blast
    then have "http_or_https ''http'' \<and> url_parts g1 g2 rest \<and> url = github_url ''http'' g1 g2 rest"
      using url by (simp add: http_or_https_def github_url_def)
    then show ?thesis by blast
  next
    case (Some s1)
    have s1: "s0 = ''s'' @ s1" using Some by (rule match_literal_Some)
    show ?thesis
    proof (cases "match_tail s1")
      case None
      with assms s0 Some have "match_tail s0 = Some (g1, g2)"
        by (simp add: re_match_def)
      then obtain rest where "s0 = ''://github.com/'' @ g1 @ ''/'' @ g2 @ rest"
        using match_tail_Some by blast
      with s1 show ?thesis by simp
    next
      case (Some groups)
      with assms s0 \<open>match_literal ''s'' s0 = Some s1\<close> have "match_tail s1 = Some (g1, g2)"
        by (simp add: re_match_def)
      then obtain rest where "url_parts g1 g2 rest" "s1 = ''://github.com/'' @ g1 @ ''/'' @ g2 @ rest"
        using match_tail_Some by blast
      then have "http_or_https ''https'' \<and> url_parts g1 g2 rest \<and> url = github_url ''https'' g1 g2 rest"
        using url s1 by (simp add: http_or_https_def github_url_def)
      then show ?thesis by blast
    qed
  qed
qed

lemma re_match_None_iff: "re_match url = None \<longleftrightarrow> \<not> accepted_repo_url url"
proof
  assume n: "re_match url = None"
  show "\<not> accepted_repo_url url"
  proof
    assume "accepted_repo_url url"
    then obtain scheme owner repo rest where
      "http_or_https scheme" "url_parts owner repo rest" "url = github_url scheme owner repo rest"
      by (auto simp: accepted_repo_url_def)
    then have "re_match url = Some (owner, repo)"
      using re_match_accepts by simp
    with n show False by simp
  qed
next
  assume na: "\<not> accepted_repo_url url"
  show "re_match url = None"
  proof (cases "re_match url")
    case None
    then show ?thesis .
  next
    case (Some groups)
    obtain g1 g2 where "groups = (g1, g2)" by (cases groups)
    with Some re_match_Some[of url g1 g2] have "accepted_repo_url url"
      by (auto simp: accepted_repo_url_def)
    with na show ?thesis by simp
  qed
qed

text \<open>
  Claim C1, as amended. For every string made of the scheme \<^verbatim>\<open>http\<close> or \<^verbatim>\<open>https\<close>,
  \<^verbatim>\<open>://github.com/\<close>, a non-empty owner without a slash, a slash, a non-empty
  repository name without a slash and then nothing or further path segments,
  \<^verbatim>\<open>validate_repo_url\<close> succeeds and returns \<^verbatim>\<open>owner/repo\<close>, whatever the trailing
  segments are. For every string that is not of this shape it raises the
  \<^verbatim>\<open>ValueError\<close> with the invalid-URL message. The function is a pure function of
  its argument: it reads no forge and no service.
\<close>

theorem validate_repo_url_accepts_or_rejects:
  "(http_or_https scheme \<and> url_parts owner repo rest \<longrightarrow>
      validate_repo_url (github_url scheme owner repo rest) = Inr (owner @ ''/'' @ repo)) \<and>
   (\<not> accepted_repo_url url \<longrightarrow>
      validate_repo_url url = Inl (ValueError invalid_url_message))"
proof (intro conjI impI)
  assume "http_or_https scheme \<and> url_parts owner repo rest"
  then have "re_match (github_url scheme owner repo rest) = Some (owner, repo)"
    using re_match_accepts by simp
  then show "validate_repo_url (github_url scheme owner repo rest) = Inr (owner @ ''/'' @ repo)"
    by (simp add: validate_repo_url_def)
next
  assume "\<not> accepted_repo_url url"
  then have "re_match url = None"
    by (simp add: re_match_None_iff)
  then show "validate_repo_url url = Inl (ValueError invalid_url_message)"
    by (simp add: validate_repo_url_def)
qed

text \<open>The amended claim C1 at an accepted URL with trailing segments and at a rejected string.\<close>

theorem validate_repo_url_accepts_or_rejects_witness:
  "validate_repo_url ''https://github.com/octocat/hello-world/tree/main'' = Inr ''octocat/hello-world'' \<and>
   validate_repo_url ''git@github.com:octocat/hello-world'' = Inl (ValueError invalid_url_message)"
proof -
  have p: "http_or_https ''https'' \<and> url_parts ''octocat'' ''hello-world'' ''/tree/main''"
    by (simp add: http_or_https_def url_parts_def path_component_def trailing_segments_def)
  have n: "\<not> accepted_repo_url ''git@github.com:octocat/hello-world''"
    by (auto simp: accepted_repo_url_def http_or_https_def github_url_def)
  have u: "github_url ''https'' ''octocat'' ''hello-world'' ''/tree/main''
             = ''https://github.com/octocat/hello-world/tree/main''"
    by (simp add: github_url_def)
  note spec = validate_repo_url_accepts_or_rejects
      [of "''https''" "''octocat''" "''hello-world''" "''/tree/main''"
          "''git@github.com:octocat/hello-world''"]
  from spec p have "validate_repo_url (github_url ''https'' ''octocat'' ''hello-world'' ''/tree/main'')
      = Inr (''octocat'' @ ''/'' @ ''hello-world'')"
    by blast
  then have a: "validate_repo_url ''https://github.com/octocat/hello-world/tree/main''
      = Inr ''octocat/hello-world''"
    by (simp add: u)
  from spec n have b: "validate_repo_url ''git@github.com:octocat/hello-world''
      = Inl (ValueError invalid_url_message)"
    by blast
  from a b show ?thesis ..
qed

text \<open>
  Claim C1 as worded fails: \<^verbatim>\<open>http://github.com/a/b\<close> is not of the shape
  \<^verbatim>\<open>https://github.com/<owner>/<repo>\<close>, and \<^verbatim>\<open>validate_repo_url\<close> accepts it, since
  the pattern of the source is \<^verbatim>\<open>https?\<close>.
\<close>

theorem validate_repo_url_http_counterexample:
  "\<not> https_repo_url ''http://github.com/a/b'' \<and>
   validate_repo_url ''http://github.com/a/b'' = Inr ''a/b''"
proof
  show "\<not> https_repo_url ''http://github.com/a/b''"
    by (simp add: https_repo_url_def github_url_def)
  show "validate_repo_url ''http://github.com/a/b'' = Inr ''a/b''"
    by (simp add: validate_repo_url_def re_match_def match_tail_def match_group_def)
qed

subsection \<open>The dictionary and the loop\<close>

lemma length_dict_set: "length (dict_set d k v) \<le> Suc (length d)"
  by (simp add: dict_set_def split: option.split)

lemma dict_set_fresh: "k \<notin> fst ` set d \<Longrightarrow> dict_set d k v = d @ [(k, v)]"
proof -
  assume "k \<notin> fst ` set d"
  then have "map_of d k = None"
    by (simp add: map_of_eq_None_iff)
  then show ?thesis
    by (simp add: dict_set_def)
qed

lemma read_file_entry:
  "read_file m (d, r) f =
     (case entry_of m f of
        None \<Rightarrow> (case decoded_content f of Raises e \<Rightarrow> Inl e | _ \<Rightarrow> Inr (d, r))
      | Some v \<Rightarrow> Inr (dict_set d (path f) v, if size_bytes f > m then r else r @ [path f]))"
  by (cases "decoded_content f") (simp_all add: read_file_def entry_of_def)

lemma read_file_stored:
  "entry_of m f = Some v \<Longrightarrow>
     read_file m (d, r) f = Inr (dict_set d (path f) v, if size_bytes f > m then r else r @ [path f])"
  by (simp add: read_file_entry)

lemma read_file_escapes:
  "read_escapes m f \<Longrightarrow> \<exists>e. decoded_content f = Raises e \<and> read_file m st f = Inl e"
  by (cases st; cases "decoded_content f")
     (simp_all add: read_escapes_def entry_of_def read_file_def split: if_splits)

lemma read_file_Inr:
  "read_file m st f = Inr st' \<Longrightarrow> \<not> read_escapes m f"
  using read_file_escapes[of m f st] by auto

lemma read_files_Inr:
  "read_files m st fs = Inr st' \<Longrightarrow> \<forall>f\<in>set fs. \<not> read_escapes m f"
proof (induction fs arbitrary: st)
  case Nil
  then show ?case by simp
next
  case (Cons f fs)
  then obtain st1 where 1: "read_file m st f = Inr st1" and 2: "read_files m st1 fs = Inr st'"
    by (auto split: sum.splits)
  from 1 have "\<not> read_escapes m f"
    by (rule read_file_Inr)
  with Cons.IH[OF 2] show ?case by simp
qed

lemma length_read_files:
  "read_files m (d, r) fs = Inr (d', r') \<Longrightarrow> length d' \<le> length d + length fs"
proof (induction fs arbitrary: d r)
  case Nil
  then show ?case by simp
next
  case (Cons f fs)
  then obtain st1 where 1: "read_file m (d, r) f = Inr st1"
    and 2: "read_files m st1 fs = Inr (d', r')"
    by (auto split: sum.splits)
  from 1 have "\<not> read_escapes m f"
    by (rule read_file_Inr)
  then obtain v where v: "entry_of m f = Some v"
    by (auto simp: read_escapes_def)
  obtain d1 r1 where st1: "st1 = (d1, r1)" by (cases st1)
  from 1 v st1 have "d1 = dict_set d (path f) v"
    by (simp add: read_file_stored)
  then have "length d1 \<le> Suc (length d)"
    by (simp add: length_dict_set)
  moreover have "length d' \<le> length d1 + length fs"
    using Cons.IH[of d1 r1] 2 st1 by simp
  ultimately show ?case by simp
qed

lemma read_files_distinct:
  assumes "distinct (map path fs)" and "path ` set fs \<inter> fst ` set d = {}"
    and "\<forall>f\<in>set fs. \<not> read_escapes m f"
  shows "read_files m (d, r) fs =
           Inr (d @ map (\<lambda>f. (path f, the (entry_of m f))) fs,
                r @ map path (filter (\<lambda>f. \<not> size_bytes f > m) fs))"
  using assms
proof (induction fs arbitrary: d r)
  case Nil
  show ?case by simp
next
  case (Cons f fs)
  have fresh: "path f \<notin> fst ` set d"
    using Cons.prems(2) by auto
  obtain v where v: "entry_of m f = Some v"
    using Cons.prems(3) by (auto simp: read_escapes_def)
  have step: "read_file m (d, r) f =
      Inr (d @ [(path f, v)], if size_bytes f > m then r else r @ [path f])"
    using fresh v by (simp add: read_file_stored dict_set_fresh)
  have d1: "distinct (map path fs)"
    using Cons.prems(1) by simp
  have d2: "path ` set fs \<inter> fst ` set (d @ [(path f, v)]) = {}"
    using Cons.prems(1,2) by auto
  have d3: "\<forall>f\<in>set fs. \<not> read_escapes m f"
    using Cons.prems(3) by simp
  show ?case
    by (simp add: step v Cons.IH[OF d1 d2 d3])
qed

subsection \<open>The slice and the sort\<close>

lemma length_slice_to: "0 \<le> n \<Longrightarrow> int (length (slice_to xs n)) \<le> n"
  by (simp add: slice_to_def)

lemma distinct_map_slice_to: "distinct (map f xs) \<Longrightarrow> distinct (map f (slice_to xs n))"
  by (simp add: slice_to_def take_map[symmetric] distinct_take del: take_map)

lemma distinct_map_files_to_check:
  assumes "distinct (map path contents)"
  shows "distinct (map path (files_to_check contents))"
proof -
  have "distinct (map path (filter (\<lambda>f. type f = ''file'') contents))"
    using assms by (rule distinct_map_filter)
  moreover have "mset (map path (files_to_check contents))
      = mset (map path (filter (\<lambda>f. type f = ''file'') contents))"
    by (simp add: files_to_check_def)
  ultimately show ?thesis
    by (metis mset_eq_imp_distinct_iff)
qed

lemma distinct_map_selected_files:
  "distinct (map path contents) \<Longrightarrow> distinct (map path (selected_files contents n))"
  unfolding selected_files_def by (intro distinct_map_slice_to distinct_map_files_to_check)

lemma selection_Inr_reads:
  assumes "get_contents repo = Inr contents" and "get_important_file_content repo n m = Inr sel"
  shows "\<forall>f\<in>set (selected_files contents n). \<not> read_escapes m f"
proof -
  from assms obtain st where "read_files m ([], []) (selected_files contents n) = Inr st"
    by (auto simp: get_important_file_content_def split: sum.splits)
  then show ?thesis
    by (rule read_files_Inr)
qed

lemma selection_of_listing:
  assumes "get_contents repo = Inr contents" and "distinct (map path contents)"
    and "\<forall>f\<in>set (selected_files contents n). \<not> read_escapes m f"
  shows "get_important_file_content repo n m =
     Inr \<lparr>file_contents = map (\<lambda>f. (path f, the (entry_of m f))) (selected_files contents n),
          fetched = map path (filter (\<lambda>f. \<not> size_bytes f > m) (selected_files contents n)),
          warnings = []\<rparr>"
proof -
  have "read_files m ([], []) (selected_files contents n) =
          Inr ([] @ map (\<lambda>f. (path f, the (entry_of m f))) (selected_files contents n),
               [] @ map path (filter (\<lambda>f. \<not> size_bytes f > m) (selected_files contents n)))"
    using distinct_map_selected_files[OF assms(2)] assms(3)
    by (intro read_files_distinct) simp_all
  then show ?thesis
    by (simp add: get_important_file_content_def assms(1))
qed

lemma selection_length:
  assumes "0 \<le> n" and "get_important_file_content repo n m = Inr sel"
  shows "int (length (file_contents sel)) \<le> n"
proof (cases "get_contents repo")
  case (Inl e)
  with assms show ?thesis
    by (auto simp: get_important_file_content_def)
next
  case (Inr contents)
  with assms(2) obtain d r where
    rf: "read_files m ([], []) (selected_files contents n) = Inr (d, r)" and d: "file_contents sel = d"
    by (auto simp: get_important_file_content_def split: sum.splits prod.splits)
  have "length d \<le> length ([] :: (string \<times> string) list) + length (selected_files contents n)"
    using rf by (rule length_read_files)
  moreover have "int (length (selected_files contents n)) \<le> n"
    unfolding selected_files_def using assms(1) by (rule length_slice_to)
  ultimately show ?thesis
    using d by simp
qed

lemma map_of_entries:
  assumes "distinct (map path fs)" and "f \<in> set fs"
  shows "map_of (map (\<lambda>f. (path f, the (entry_of m f))) fs) (path f) = Some (the (entry_of m f))"
  using assms
proof (induction fs)
  case Nil
  then show ?case by simp
next
  case (Cons g fs)
  then show ?case by (cases "f = g") (auto simp: image_iff)
qed

subsection \<open>The priority key\<close>

lemma index_of_None: "index_of x xs = None \<longleftrightarrow> x \<notin> set xs"
  by (induction xs) auto

lemma index_of_nth:
  "distinct xs \<Longrightarrow> i < length xs \<Longrightarrow> index_of (xs ! i) xs = Some i"
proof (induction xs arbitrary: i)
  case Nil
  then show ?case by simp
next
  case (Cons y ys)
  show ?case
  proof (cases i)
    case 0
    then show ?thesis by simp
  next
    case (Suc j)
    with Cons.prems have "j < length ys" "ys ! j \<noteq> y" "distinct ys"
      by auto
    with Cons.IH[of j] Suc show ?thesis by simp
  qed
qed

lemma distinct_priority_files: "distinct priority_files"
  by (simp add: priority_files_def)

lemma priority_key_unlisted: "priority_key f = \<infinity> \<longleftrightarrow> name f \<notin> set priority_files"
  by (simp add: priority_key_def index_of_None[symmetric] split: option.split)

lemma priority_key_listed:
  "i < length priority_files \<Longrightarrow> name f = priority_files ! i \<Longrightarrow> priority_key f = enat i"
  by (simp add: priority_key_def index_of_nth[OF distinct_priority_files])

lemma unlisted_stay_behind:
  assumes "i < j" and "j < length (files_to_check contents)"
    and "name (files_to_check contents ! i) \<notin> set priority_files"
  shows "name (files_to_check contents ! j) \<notin> set priority_files"
proof -
  let ?fs = "files_to_check contents"
  have "sorted (map priority_key ?fs)"
    by (simp add: files_to_check_def)
  then have "map priority_key ?fs ! i \<le> map priority_key ?fs ! j"
    using assms(1,2) by (intro sorted_nth_mono) simp_all
  then have "priority_key (?fs ! i) \<le> priority_key (?fs ! j)"
    using assms(1,2) by simp
  moreover have "priority_key (?fs ! i) = \<infinity>"
    using assms(3) by (simp add: priority_key_unlisted)
  ultimately have "priority_key (?fs ! j) = \<infinity>"
    by simp
  then show ?thesis
    by (simp add: priority_key_unlisted)
qed

subsection \<open>README.md, random.txt and package.json\<close>

lemma filter_single:
  assumes "mset xs = {#a, b, c#}" and "P k" and "filter_mset P {#a, b, c#} = {#k#}"
  shows "filter P xs = [k]"
proof -
  have "mset (filter P xs) = {#k#}"
    using assms by simp
  then show ?thesis
    by (simp only: mset_single_iff)
qed

lemma three_files_sorted:
  assumes n: "name a = ''README.md''" "name b = ''random.txt''" "name c = ''package.json''"
    and p: "mset listing = {#a, b, c#}"
  shows "sort_key priority_key listing = [a, c, b]"
proof (rule properties_for_sort_key)
  have ka: "priority_key a = enat 0" and kc: "priority_key c = enat 2" and kb: "priority_key b = \<infinity>"
    using n by (simp_all add: priority_key_def priority_files_def)
  show "mset [a, c, b] = mset listing"
    using p by simp
  show "sorted (map priority_key [a, c, b])"
    by (simp add: ka kb kc)
  fix k assume "k \<in> set [a, c, b]"
  then consider "k = a" | "k = c" | "k = b" by auto
  then show "filter (\<lambda>x. priority_key k = priority_key x) [a, c, b]
           = filter (\<lambda>x. priority_key k = priority_key x) listing"
  proof cases
    case 1
    have "filter (\<lambda>x. priority_key a = priority_key x) listing = [a]"
      using p by (rule filter_single) (simp_all add: ka kb kc zero_enat_def)
    then show ?thesis by (simp add: 1 ka kb kc zero_enat_def)
  next
    case 2
    have "filter (\<lambda>x. priority_key c = priority_key x) listing = [c]"
      using p by (rule filter_single) (simp_all add: ka kb kc zero_enat_def)
    then show ?thesis by (simp add: 2 ka kb kc zero_enat_def)
  next
    case 3
    have "filter (\<lambda>x. priority_key b = priority_key x) listing = [b]"
      using p by (rule filter_single) (simp_all add: ka kb kc zero_enat_def)
    then show ?thesis by (simp add: 3 ka kb kc zero_enat_def)
  qed
qed

lemma three_files_selected:
  assumes n: "name a = ''README.md''" "name b = ''random.txt''" "name c = ''package.json''"
    and t: "type a = ''file''" "type b = ''file''" "type c = ''file''"
    and p: "mset listing = {#a, b, c#}"
  shows "selected_files listing 2 = [a, c]"
proof -
  have "set listing = {a, b, c}"
    using mset_eq_setD[of listing "[a, b, c]"] p by auto
  then have "filter (\<lambda>f. type f = ''file'') listing = listing"
    using t by (intro filter_True) auto
  then have "files_to_check listing = [a, c, b]"
    using three_files_sorted[OF n p] by (simp add: files_to_check_def)
  then show ?thesis
    by (simp add: selected_files_def slice_to_def)
qed

subsection \<open>File selection\<close>

lemma read_files_returns:
  "\<forall>f\<in>set fs. \<not> read_escapes m f \<Longrightarrow> \<exists>st'. read_files m st fs = Inr st'"
proof (induction fs arbitrary: st)
  case Nil
  show ?case by simp
next
  case (Cons f fs)
  obtain d r where st: "st = (d, r)" by (cases st)
  from Cons.prems obtain v where "entry_of m f = Some v"
    by (auto simp: read_escapes_def)
  then have "\<exists>st1. read_file m st f = Inr st1"
    unfolding st by (simp add: read_file_stored)
  then obtain st1 where 1: "read_file m st f = Inr st1" ..
  from Cons.prems have "\<forall>f\<in>set fs. \<not> read_escapes m f"
    by simp
  from Cons.IH[OF this, of st1] 1 show ?case
    by simp
qed

lemma selection_returns:
  assumes "get_contents repo = Inr contents"
    and "\<forall>f\<in>set (selected_files contents n). \<not> read_escapes m f"
  shows "\<exists>sel. get_important_file_content repo n m = Inr sel"
proof -
  from read_files_returns[OF assms(2), of "([], [])"] obtain d r where
    "read_files m ([], []) (selected_files contents n) = Inr (d, r)"
    by auto
  then show ?thesis
    by (simp add: get_important_file_content_def assms(1))
qed

lemma selection_escapes:
  assumes "get_contents repo = Inr contents"
    and "f \<in> set (selected_files contents n)" and "read_escapes m f"
  shows "\<exists>e. get_important_file_content repo n m = Inl e"
proof (cases "get_important_file_content repo n m")
  case (Inl e)
  then show ?thesis by simp
next
  case (Inr sel)
  from selection_Inr_reads[OF assms(1) Inr] assms(2,3) show ?thesis
    by blast
qed

text \<open>
  Claim C3. The files the selection works on are the regular files of the listing,
  sorted in ascending order of the priority key, a permutation of them that keeps the
  input order among files of equal key (the sort is stable). The key of a file named in
  the priority list is the index of its name there, the key of any other file is
  infinity, so that no listed file comes after an unlisted one. In particular, for a
  root listing that is any arrangement of the three regular files \<^verbatim>\<open>README.md\<close>,
  \<^verbatim>\<open>random.txt\<close> and \<^verbatim>\<open>package.json\<close>, the files selected with \<^verbatim>\<open>max_files = 2\<close>
  are \<^verbatim>\<open>README.md\<close> and \<^verbatim>\<open>package.json\<close>, in that order; these are the keys of the
  dictionary the function returns, and it returns one unless reading one of the two
  raises an exception that leaves the loop.
\<close>

theorem files_to_check_priority_order:
  "sorted (map priority_key (files_to_check contents)) \<and>
   mset (files_to_check contents) = mset (filter (\<lambda>f. type f = ''file'') contents) \<and>
   (\<forall>k. filter (\<lambda>f. priority_key f = k) (files_to_check contents)
        = filter (\<lambda>f. priority_key f = k) (filter (\<lambda>f. type f = ''file'') contents)) \<and>
   (\<forall>f i. i < length priority_files \<and> name f = priority_files ! i \<longrightarrow> priority_key f = enat i) \<and>
   (\<forall>f. name f \<notin> set priority_files \<longrightarrow> priority_key f = \<infinity>) \<and>
   (\<forall>i j. i < j \<and> j < length (files_to_check contents) \<and>
          name (files_to_check contents ! i) \<notin> set priority_files \<longrightarrow>
          name (files_to_check contents ! j) \<notin> set priority_files) \<and>
   (name a = ''README.md'' \<and> name b = ''random.txt'' \<and> name c = ''package.json'' \<and>
    (\<forall>f\<in>{a, b, c}. type f = ''file'' \<and> path f = name f) \<and>
    mset listing = {#a, b, c#} \<and> get_contents repo = Inr listing \<longrightarrow>
      selected_files listing 2 = [a, c] \<and>
      (\<forall>sel. get_important_file_content repo 2 max_file_size = Inr sel \<longrightarrow>
         map fst (file_contents sel) = [''README.md'', ''package.json'']) \<and>
      (\<not> read_escapes max_file_size a \<and> \<not> read_escapes max_file_size c \<longrightarrow>
         (\<exists>sel. get_important_file_content repo 2 max_file_size = Inr sel)))"
proof (intro conjI allI impI)
  show "sorted (map priority_key (files_to_check contents))"
    by (simp add: files_to_check_def)
  show "mset (files_to_check contents) = mset (filter (\<lambda>f. type f = ''file'') contents)"
    by (simp add: files_to_check_def)
  show "filter (\<lambda>f. priority_key f = k) (files_to_check contents)
        = filter (\<lambda>f. priority_key f = k) (filter (\<lambda>f. type f = ''file'') contents)" for k
    unfolding files_to_check_def by (rule sort_key_stable)
  show "priority_key f = enat i" if "i < length priority_files \<and> name f = priority_files ! i" for f i
    using that by (simp add: priority_key_listed)
  show "priority_key f = \<infinity>" if "name f \<notin> set priority_files" for f
    using that by (simp add: priority_key_unlisted)
  show "name (files_to_check contents ! j) \<notin> set priority_files"
    if "i < j \<and> j < length (files_to_check contents) \<and>
        name (files_to_check contents ! i) \<notin> set priority_files" for i j
    using that unlisted_stay_behind by blast
next
  assume h: "name a = ''README.md'' \<and> name b = ''random.txt'' \<and> name c = ''package.json'' \<and>
    (\<forall>f\<in>{a, b, c}. type f = ''file'' \<and> path f = name f) \<and>
    mset listing = {#a, b, c#} \<and> get_contents repo = Inr listing"
  then show s: "selected_files listing 2 = [a, c]"
    by (intro three_files_selected) simp_all
  have l: "get_contents repo = Inr listing"
    using h by simp
  have pa: "path a = ''README.md''" and pc: "path c = ''package.json''"
    using h by simp_all
  have keys: "map fst (file_contents sel) = [''README.md'', ''package.json'']"
    if r: "get_important_file_content repo 2 max_file_size = Inr sel" for sel
  proof -
    from selection_Inr_reads[OF l r] obtain va vc where
      v: "entry_of max_file_size a = Some va" "entry_of max_file_size c = Some vc"
      unfolding s by (auto simp: read_escapes_def)
    have "read_files max_file_size ([], []) [a, c] =
       Inr ([(''README.md'', va), (''package.json'', vc)],
         (if size_bytes a > max_file_size then [] else [''README.md'']) @
         (if size_bytes c > max_file_size then [] else [''package.json'']))"
      by (simp add: read_file_stored v dict_set_def pa pc)
    with r show ?thesis
      by (auto simp: get_important_file_content_def l s)
  qed
  then show "map fst (file_contents sel) = [''README.md'', ''package.json'']"
    if "get_important_file_content repo 2 max_file_size = Inr sel" for sel
    using that .
  show "\<exists>sel. get_important_file_content repo 2 max_file_size = Inr sel"
    if "\<not> read_escapes max_file_size a \<and> \<not> read_escapes max_file_size c"
    using that by (intro selection_returns[OF l]) (simp add: s)
qed

text \<open>
  Claim C4. For every listing, every number \<^verbatim>\<open>max_files\<close> of files and every
  \<^verbatim>\<open>max_file_size\<close>, the dictionary that the selection returns holds at most
  \<^verbatim>\<open>max_files\<close> entries; and for a root listing (its paths are pairwise distinct), every
  selected file whose size is strictly greater than \<^verbatim>\<open>max_file_size\<close> is stored as the
  too-large placeholder and its content is not read. The selection does return when no
  read of a selected file raises an exception that leaves the loop.
\<close>

theorem selection_bounded_and_too_large:
  assumes "0 \<le> max_files"
  shows "(\<forall>sel. get_important_file_content repo max_files max_file_size = Inr sel \<longrightarrow>
            int (length (file_contents sel)) \<le> max_files \<and>
            (\<forall>contents. get_contents repo = Inr contents \<and> distinct (map path contents) \<longrightarrow>
               (\<forall>f\<in>set (selected_files contents max_files). size_bytes f > max_file_size \<longrightarrow>
                  map_of (file_contents sel) (path f) = Some (too_large max_file_size) \<and>
                  path f \<notin> set (fetched sel)))) \<and>
         (\<forall>contents. get_contents repo = Inr contents \<and>
            (\<forall>f\<in>set (selected_files contents max_files). \<not> read_escapes max_file_size f) \<longrightarrow>
            (\<exists>sel. get_important_file_content repo max_files max_file_size = Inr sel))"
proof (intro conjI allI impI ballI)
  fix sel
  assume r: "get_important_file_content repo max_files max_file_size = Inr sel"
  show "int (length (file_contents sel)) \<le> max_files"
    using assms r by (rule selection_length)
  fix contents f
  assume c: "get_contents repo = Inr contents \<and> distinct (map path contents)"
    and f: "f \<in> set (selected_files contents max_files)"
    and big: "size_bytes f > max_file_size"
  let ?sel = "selected_files contents max_files"
  have d: "distinct (map path ?sel)"
    using c by (simp add: distinct_map_selected_files)
  have ne: "\<forall>f\<in>set ?sel. \<not> read_escapes max_file_size f"
    using c r by (intro selection_Inr_reads) simp_all
  have "get_important_file_content repo max_files max_file_size =
     Inr \<lparr>file_contents = map (\<lambda>f. (path f, the (entry_of max_file_size f))) ?sel,
          fetched = map path (filter (\<lambda>f. \<not> size_bytes f > max_file_size) ?sel),
          warnings = []\<rparr>"
    using c ne by (intro selection_of_listing) simp_all
  with r have s: "sel =
     \<lparr>file_contents = map (\<lambda>f. (path f, the (entry_of max_file_size f))) ?sel,
      fetched = map path (filter (\<lambda>f. \<not> size_bytes f > max_file_size) ?sel),
      warnings = []\<rparr>"
    by simp
  show "map_of (file_contents sel) (path f) = Some (too_large max_file_size)"
    using map_of_entries[OF d f, of max_file_size] big by (simp add: s entry_of_def)
  show "path f \<notin> set (fetched sel)"
  proof
    assume "path f \<in> set (fetched sel)"
    then obtain g where g: "g \<in> set ?sel" "\<not> size_bytes g > max_file_size" "path g = path f"
      by (auto simp: s)
    have "inj_on path (set ?sel)"
      using d by (simp add: distinct_map)
    with g(1,3) f have "g = f"
      by (auto dest: inj_onD)
    with g(2) big show False by simp
  qed
next
  fix contents
  assume "get_contents repo = Inr contents \<and>
            (\<forall>f\<in>set (selected_files contents max_files). \<not> read_escapes max_file_size f)"
  then show "\<exists>sel. get_important_file_content repo max_files max_file_size = Inr sel"
    using selection_returns by blast
qed

text \<open>
  Claim C10. A selected file of a root listing whose size is exactly \<^verbatim>\<open>max_file_size\<close>
  is not replaced by the too-large placeholder: its content is read. When the selection
  returns, the file is among the files read and its entry is the decoded text, or the
  could-not-decode placeholder when reading fails with one of the two caught exceptions;
  and when reading it raises another exception, the selection raises.
\<close>

theorem boundary_size_is_fetched:
  assumes "get_contents repo = Inr contents" and "distinct (map path contents)"
    and "f \<in> set (selected_files contents max_files)"
    and "size_bytes f = max_file_size"
  shows "(\<forall>sel. get_important_file_content repo max_files max_file_size = Inr sel \<longrightarrow>
            path f \<in> set (fetched sel) \<and>
            (\<forall>decoded. decoded_content f = Text decoded \<longrightarrow>
               map_of (file_contents sel) (path f) = Some decoded) \<and>
            (decoded_content f = UnicodeDecodeError \<or> (\<exists>e. decoded_content f = GithubException e) \<longrightarrow>
               map_of (file_contents sel) (path f) = Some could_not_decode) \<and>
            (\<forall>e. decoded_content f \<noteq> Raises e)) \<and>
         (\<forall>e. decoded_content f = Raises e \<longrightarrow>
            (\<exists>e'. get_important_file_content repo max_files max_file_size = Inl e'))"
proof (intro conjI allI impI)
  fix e
  assume "decoded_content f = Raises e"
  then have "read_escapes max_file_size f"
    using assms(4) by (simp add: read_escapes_def entry_of_def)
  with assms(1,3) show "\<exists>e'. get_important_file_content repo max_files max_file_size = Inl e'"
    by (rule selection_escapes)
next
  fix sel
  assume r: "get_important_file_content repo max_files max_file_size = Inr sel"
  let ?sel = "selected_files contents max_files"
  have d: "distinct (map path ?sel)"
    using assms(2) by (rule distinct_map_selected_files)
  have ne: "\<forall>f\<in>set ?sel. \<not> read_escapes max_file_size f"
    using assms(1) r by (rule selection_Inr_reads)
  have "get_important_file_content repo max_files max_file_size =
     Inr \<lparr>file_contents = map (\<lambda>f. (path f, the (entry_of max_file_size f))) ?sel,
          fetched = map path (filter (\<lambda>f. \<not> size_bytes f > max_file_size) ?sel),
          warnings = []\<rparr>"
    using assms(1,2) ne by (rule selection_of_listing)
  with r have s: "sel =
     \<lparr>file_contents = map (\<lambda>f. (path f, the (entry_of max_file_size f))) ?sel,
      fetched = map path (filter (\<lambda>f. \<not> size_bytes f > max_file_size) ?sel),
      warnings = []\<rparr>"
    by simp
  have m: "map_of (file_contents sel) (path f) = Some (the (entry_of max_file_size f))"
    using map_of_entries[OF d assms(3), of max_file_size] by (simp add: s)
  show "path f \<in> set (fetched sel)"
    using assms(3,4) by (auto simp: s)
  show "map_of (file_contents sel) (path f) = Some decoded"
    if "decoded_content f = Text decoded" for decoded
    using that m assms(4) by (simp add: entry_of_def)
  show "map_of (file_contents sel) (path f) = Some could_not_decode"
    if "decoded_content f = UnicodeDecodeError \<or> (\<exists>e. decoded_content f = GithubException e)"
    using that m assms(4) by (auto simp: entry_of_def)
  show "decoded_content f \<noteq> Raises e" for e
  proof
    assume "decoded_content f = Raises e"
    then have "read_escapes max_file_size f"
      using assms(4) by (simp add: read_escapes_def entry_of_def)
    with ne assms(3) show False by blast
  qed
qed


lemmas demo_simps =
  demo_repo_def demo_file_def get_important_file_content_def selected_files_def files_to_check_def
  slice_to_def priority_key_def priority_files_def read_file_def dict_set_def could_not_decode_def

text \<open>Claim C3 at the listing \<^verbatim>\<open>random.txt\<close>, \<^verbatim>\<open>package.json\<close>, \<^verbatim>\<open>README.md\<close>.\<close>

theorem files_to_check_priority_order_witness:
  "selected_files
     [demo_file ''random.txt'' 5 (Text ''r''), demo_file ''package.json'' 20 (Text ''{}''),
      demo_file ''README.md'' 200 (Text ''hi'')] 2
     = [demo_file ''README.md'' 200 (Text ''hi''), demo_file ''package.json'' 20 (Text ''{}'')] \<and>
   (\<exists>sel. get_important_file_content
      (demo_repo (Inr [demo_file ''random.txt'' 5 (Text ''r''),
                       demo_file ''package.json'' 20 (Text ''{}''),
                       demo_file ''README.md'' 200 (Text ''hi'')])) 2 15000 = Inr sel \<and>
      map fst (file_contents sel) = [''README.md'', ''package.json''])"
proof -
  let ?a = "demo_file ''README.md'' 200 (Text ''hi'')"
  let ?b = "demo_file ''random.txt'' 5 (Text ''r'')"
  let ?c = "demo_file ''package.json'' 20 (Text ''{}'')"
  let ?r = "demo_repo (Inr [?b, ?c, ?a])"
  have h: "name ?a = ''README.md'' \<and> name ?b = ''random.txt'' \<and> name ?c = ''package.json'' \<and>
    (\<forall>f\<in>{?a, ?b, ?c}. type f = ''file'' \<and> path f = name f) \<and>
    mset [?b, ?c, ?a] = {#?a, ?b, ?c#} \<and> get_contents ?r = Inr [?b, ?c, ?a]"
    by (simp add: demo_repo_def demo_file_def)
  have n: "\<not> read_escapes 15000 ?a \<and> \<not> read_escapes 15000 ?c"
    by (simp add: read_escapes_def entry_of_def demo_file_def)
  note spec = files_to_check_priority_order[of "[?b, ?c, ?a]" ?a ?b ?c "[?b, ?c, ?a]" ?r 15000]
  note particular = spec[THEN conjunct2, THEN conjunct2, THEN conjunct2, THEN conjunct2,
      THEN conjunct2, THEN conjunct2]
  have concl: "selected_files [?b, ?c, ?a] 2 = [?a, ?c] \<and>
      (\<forall>sel. get_important_file_content ?r 2 15000 = Inr sel \<longrightarrow>
         map fst (file_contents sel) = [''README.md'', ''package.json'']) \<and>
      (\<not> read_escapes 15000 ?a \<and> \<not> read_escapes 15000 ?c \<longrightarrow>
         (\<exists>sel. get_important_file_content ?r 2 15000 = Inr sel))"
    using particular h by (rule mp)
  note 1 = conjunct1[OF concl] and 2 = conjunct1[OF conjunct2[OF concl]]
    and 3 = conjunct2[OF conjunct2[OF concl]]
  from 3 n have "\<exists>sel. get_important_file_content ?r 2 15000 = Inr sel"
    by (rule mp)
  then obtain sel where r: "get_important_file_content ?r 2 15000 = Inr sel" ..
  from 2 have "get_important_file_content ?r 2 15000 = Inr sel \<longrightarrow>
         map fst (file_contents sel) = [''README.md'', ''package.json'']"
    by (rule HOL.spec)
  from this r have k: "map fst (file_contents sel) = [''README.md'', ''package.json'']"
    by (rule mp)
  from r k have "get_important_file_content ?r 2 15000 = Inr sel \<and>
      map fst (file_contents sel) = [''README.md'', ''package.json'']"
    by (rule conjI)
  then have ex: "\<exists>sel. get_important_file_content ?r 2 15000 = Inr sel \<and>
      map fst (file_contents sel) = [''README.md'', ''package.json'']"
    by (rule exI[of _ sel])
  from 1 ex show ?thesis
    by (rule conjI)
qed

text \<open>Claim C4 at a listing whose \<^verbatim>\<open>README.md\<close> has 20000 bytes.\<close>

theorem selection_bounded_and_too_large_witness:
  "\<exists>sel. get_important_file_content
      (demo_repo (Inr [demo_file ''notes.txt'' 10 (Text ''n''),
                       demo_file ''README.md'' 20000 (Text ''big'')])) 1 15000 = Inr sel \<and>
     int (length (file_contents sel)) \<le> 1 \<and>
     map_of (file_contents sel) ''README.md'' = Some (too_large 15000) \<and>
     ''README.md'' \<notin> set (fetched sel)"
proof -
  let ?f = "demo_file ''README.md'' 20000 (Text ''big'')"
  let ?l = "[demo_file ''notes.txt'' 10 (Text ''n''), ?f]"
  let ?r = "demo_repo (Inr ?l)"
  have 0: "(0::int) \<le> 1" by simp
  have c: "get_contents ?r = Inr ?l \<and> distinct (map path ?l)"
    by (simp add: demo_repo_def demo_file_def)
  have s: "selected_files ?l 1 = [?f]"
    by (simp add: demo_simps)
  have f: "?f \<in> set (selected_files ?l 1)"
    unfolding s by simp
  have ne: "get_contents ?r = Inr ?l \<and> (\<forall>f\<in>set (selected_files ?l 1). \<not> read_escapes 15000 f)"
    unfolding s by (simp add: demo_repo_def read_escapes_def entry_of_def demo_file_def)
  have b: "size_bytes ?f > 15000" and p: "path ?f = ''README.md''"
    by (simp_all add: demo_file_def)
  note spec = selection_bounded_and_too_large[OF 0, of ?r 15000]
  from spec ne obtain sel where r: "get_important_file_content ?r 1 15000 = Inr sel"
    by blast
  from spec r c f b
  have "int (length (file_contents sel)) \<le> 1 \<and>
        map_of (file_contents sel) (path ?f) = Some (too_large 15000) \<and>
        path ?f \<notin> set (fetched sel)"
    by blast
  then have "get_important_file_content ?r 1 15000 = Inr sel \<and>
     int (length (file_contents sel)) \<le> 1 \<and>
     map_of (file_contents sel) ''README.md'' = Some (too_large 15000) \<and>
     ''README.md'' \<notin> set (fetched sel)"
    unfolding p using r by simp
  then show ?thesis
    by (rule exI[of _ sel])
qed

text \<open>Claim C10 at a \<^verbatim>\<open>README.md\<close> of exactly 15000 bytes.\<close>

theorem boundary_size_is_fetched_witness:
  "\<exists>sel. get_important_file_content
      (demo_repo (Inr [demo_file ''README.md'' 15000 (Text ''hello'')])) 7 15000 = Inr sel \<and>
     ''README.md'' \<in> set (fetched sel) \<and>
     map_of (file_contents sel) ''README.md'' = Some ''hello''"
proof -
  let ?f = "demo_file ''README.md'' 15000 (Text ''hello'')"
  let ?r = "demo_repo (Inr [?f])"
  have c: "get_contents ?r = Inr [?f]" and d: "distinct (map path [?f])"
    by (simp_all add: demo_repo_def)
  have f: "?f \<in> set (selected_files [?f] 7)"
    by (simp add: demo_simps)
  have b: "size_bytes ?f = 15000" and p: "path ?f = ''README.md''"
    and t: "decoded_content ?f = Text ''hello''"
    by (simp_all add: demo_file_def)
  have "\<exists>sel. get_important_file_content ?r 7 15000 = Inr sel"
    by (simp add: demo_simps)
  then obtain sel where r: "get_important_file_content ?r 7 15000 = Inr sel" ..
  from boundary_size_is_fetched[OF c d f b] r t
  have "path ?f \<in> set (fetched sel) \<and> map_of (file_contents sel) (path ?f) = Some ''hello''"
    by blast
  then have "get_important_file_content ?r 7 15000 = Inr sel \<and>
     ''README.md'' \<in> set (fetched sel) \<and> map_of (file_contents sel) ''README.md'' = Some ''hello''"
    unfolding p using r by simp
  then show ?thesis
    by (rule exI[of _ sel])
qed



subsection \<open>fetch_repo_data\<close>

lemma py_or_None: "py_or None d = d"
  by (simp add: py_or_def)

lemma py_or_Some: "py_or (Some s) d = (if s = [] then d else s)"
  by (simp add: py_or_def)

lemma listing_failure_returns:
  "get_contents repo = Inl e \<Longrightarrow> \<exists>sel. get_important_file_content repo n m = Inr sel"
  by (simp add: get_important_file_content_def)

text \<open>
  Claim C6, as amended. A \<^verbatim>\<open>GithubException\<close> raised by \<^verbatim>\<open>get_repo\<close>, by
  \<^verbatim>\<open>get_languages\<close> or by \<^verbatim>\<open>get_topics\<close> reaches the handler of \<^verbatim>\<open>fetch_repo_data\<close>,
  and the function raises the error the handler makes of it: the not-found message for
  status 404, the authentication message for status 401, and for any other status the
  generic message that wraps \<^verbatim>\<open>str(e)\<close>. The three errors differ from one another.
  Apart from an exception that leaves the file selection, \<^verbatim>\<open>fetch_repo_data\<close> raises
  no other error. A \<^verbatim>\<open>GithubException\<close> of the root listing, whatever its status, does
  not make \<^verbatim>\<open>fetch_repo_data\<close> raise, and neither does one of a file's content: when
  the three calls above succeed and the file selection returns, so does
  \<^verbatim>\<open>fetch_repo_data\<close>.
\<close>

theorem fetch_repo_data_distinguishes_status:
  "((g repo_id = Inl e \<or>
     (g repo_id = Inr repo \<and>
        (get_languages repo = Inl e \<or>
         (get_languages repo = Inr languages \<and>
          get_important_file_content repo 7 15000 = Inr sel \<and> get_topics repo = Inl e)))) \<longrightarrow>
      fst (fetch_repo_data g repo_id) = Inl (forge_error e)) \<and>
   (status e = 404 \<longrightarrow> forge_error e = Exception not_found_message) \<and>
   (status e = 401 \<longrightarrow> forge_error e = Exception authentication_message) \<and>
   (status e \<noteq> 404 \<and> status e \<noteq> 401 \<longrightarrow>
      forge_error e = Exception (''Error fetching repo data: '' @ str_e e)) \<and>
   not_found_message \<noteq> authentication_message \<and>
   ''Error fetching repo data: '' @ str_e e \<noteq> not_found_message \<and>
   ''Error fetching repo data: '' @ str_e e \<noteq> authentication_message \<and>
   (fst (fetch_repo_data g repo_id) = Inl err \<longrightarrow>
      (\<exists>e'. err = forge_error e' \<and>
         (g repo_id = Inl e' \<or>
          (\<exists>r. g repo_id = Inr r \<and> (get_languages r = Inl e' \<or> get_topics r = Inl e')))) \<or>
      (\<exists>r. g repo_id = Inr r \<and> get_important_file_content r 7 15000 = Inl err)) \<and>
   (g repo_id = Inr repo \<and> get_languages repo = Inr languages \<and> get_topics repo = Inr topics \<longrightarrow>
      (get_contents repo = Inl e \<longrightarrow> (\<exists>rd. fst (fetch_repo_data g repo_id) = Inr rd)) \<and>
      (get_important_file_content repo 7 15000 = Inr sel \<longrightarrow>
         (\<exists>rd. fst (fetch_repo_data g repo_id) = Inr rd)))"
proof -
  have raised: "(g repo_id = Inl e \<or>
     (g repo_id = Inr repo \<and>
        (get_languages repo = Inl e \<or>
         (get_languages repo = Inr languages \<and>
          get_important_file_content repo 7 15000 = Inr sel \<and> get_topics repo = Inl e)))) \<longrightarrow>
      fst (fetch_repo_data g repo_id) = Inl (forge_error e)"
    by (auto simp: fetch_repo_data_def Let_def)
  have only: "fst (fetch_repo_data g repo_id) = Inl err \<longrightarrow>
      (\<exists>e'. err = forge_error e' \<and>
         (g repo_id = Inl e' \<or>
          (\<exists>r. g repo_id = Inr r \<and> (get_languages r = Inl e' \<or> get_topics r = Inl e')))) \<or>
      (\<exists>r. g repo_id = Inr r \<and> get_important_file_content r 7 15000 = Inl err)"
    by (auto simp: fetch_repo_data_def Let_def split: sum.splits)
  have returns: "\<exists>rd. fst (fetch_repo_data g repo_id) = Inr rd"
    if "g repo_id = Inr repo \<and> get_languages repo = Inr languages \<and> get_topics repo = Inr topics"
      and "get_important_file_content repo 7 15000 = Inr s" for s
    using that by (simp add: fetch_repo_data_def Let_def)
  have absorbed: "g repo_id = Inr repo \<and> get_languages repo = Inr languages \<and>
      get_topics repo = Inr topics \<longrightarrow>
      (get_contents repo = Inl e \<longrightarrow> (\<exists>rd. fst (fetch_repo_data g repo_id) = Inr rd)) \<and>
      (get_important_file_content repo 7 15000 = Inr sel \<longrightarrow>
         (\<exists>rd. fst (fetch_repo_data g repo_id) = Inr rd))"
  proof (intro conjI impI)
    assume c: "g repo_id = Inr repo \<and> get_languages repo = Inr languages \<and>
      get_topics repo = Inr topics"
    assume "get_contents repo = Inl e"
    then obtain s where "get_important_file_content repo 7 15000 = Inr s"
      using listing_failure_returns by blast
    with c show "\<exists>rd. fst (fetch_repo_data g repo_id) = Inr rd"
      by (rule returns)
  next
    assume c: "g repo_id = Inr repo \<and> get_languages repo = Inr languages \<and>
      get_topics repo = Inr topics"
    assume "get_important_file_content repo 7 15000 = Inr sel"
    with c show "\<exists>rd. fst (fetch_repo_data g repo_id) = Inr rd"
      by (rule returns)
  qed
  have m1: "not_found_message \<noteq> authentication_message"
    and m2: "''Error fetching repo data: '' @ str_e e \<noteq> not_found_message"
    and m3: "''Error fetching repo data: '' @ str_e e \<noteq> authentication_message"
    by (simp_all add: not_found_message_def authentication_message_def)
  have s404: "status e = 404 \<longrightarrow> forge_error e = Exception not_found_message"
    by (simp add: forge_error_def)
  have s401: "status e = 401 \<longrightarrow> forge_error e = Exception authentication_message"
    by (simp add: forge_error_def)
  have other: "status e \<noteq> 404 \<and> status e \<noteq> 401 \<longrightarrow>
      forge_error e = Exception (''Error fetching repo data: '' @ str_e e)"
    by (simp add: forge_error_def)
  note all = conjI[OF raised conjI[OF s404 conjI[OF s401 conjI[OF other conjI[OF m1
      conjI[OF m2 conjI[OF m3 conjI[OF only absorbed]]]]]]]]
  show ?thesis
    by (rule all)
qed

text \<open>
  Claim C9. When the three forge calls succeed and the file selection returns,
  \<^verbatim>\<open>fetch_repo_data\<close> returns its dictionary. A description or primary language that is
  \<^verbatim>\<open>None\<close> (or empty) is replaced by the fixed text, so that both fields are always
  strings; a non-empty one is kept. The name, the owner's login, the URL, the star and
  fork counts and the topics are those of the forge, the technology stack is the keys of
  the language breakdown, and the files are those of the file selection.
\<close>

theorem fetch_repo_data_defaults:
  assumes "g repo_id = Inr repo" and "get_languages repo = Inr languages"
    and "get_topics repo = Inr topics"
    and "get_important_file_content repo 7 15000 = Inr sel"
  shows "\<exists>rd w. fetch_repo_data g repo_id = (Inr rd, w) \<and>
     (repo_description repo = None \<longrightarrow> rd_description rd = ''No description provided.'') \<and>
     (repo_language repo = None \<longrightarrow> rd_language rd = ''Not specified'') \<and>
     (repo_description repo = Some [] \<longrightarrow> rd_description rd = ''No description provided.'') \<and>
     (repo_language repo = Some [] \<longrightarrow> rd_language rd = ''Not specified'') \<and>
     (\<forall>d. repo_description repo = Some d \<and> d \<noteq> [] \<longrightarrow> rd_description rd = d) \<and>
     (\<forall>l. repo_language repo = Some l \<and> l \<noteq> [] \<longrightarrow> rd_language rd = l) \<and>
     rd_name rd = repo_name repo \<and> rd_owner rd = repo_owner_login repo \<and>
     rd_url rd = repo_html_url repo \<and> rd_stars rd = repo_stargazers_count repo \<and>
     rd_forks rd = repo_forks_count repo \<and> rd_topics rd = topics \<and>
     rd_tech_stack rd = map fst languages \<and>
     rd_important_files rd = file_contents sel"
  using assms by (simp add: fetch_repo_data_def Let_def py_or_None py_or_Some)

subsection \<open>run_ai_analysis\<close>

lemma py_getitem_Inr:
  "py_getitem v k = Inr x \<longleftrightarrow> (\<exists>items. v = PyDict items \<and> map_of items k = Some x)"
  by (cases v) (simp_all split: option.split)

lemma py_getattr_Inr:
  "py_getattr v a = Inr x \<longleftrightarrow> (\<exists>cls attrs. v = PyObj cls attrs \<and> map_of attrs a = Some x)"
  by (cases v) (simp_all split: option.split)

lemma results_object_Inr:
  "results_object response = Inr obj \<longleftrightarrow>
     (\<exists>outer results. response = PyDict outer \<and> map_of outer ''results'' = Some (PyDict results) \<and>
        map_of results ''summarize_text'' = Some obj)"
proof (cases "py_getitem response ''results''")
  case (Inl d)
  then have "\<nexists>x. py_getitem response ''results'' = Inr x"
    by simp
  then show ?thesis
    using Inl by (auto simp: results_object_def py_getitem_Inr)
next
  case (Inr r)
  then show ?thesis
    by (auto simp: results_object_def py_getitem_Inr)
qed

lemma expected_shape_lookups:
  "expected_shape response \<longleftrightarrow>
     (\<exists>obj s k. results_object response = Inr obj \<and> py_getattr obj ''summary'' = Inr s \<and>
        py_getattr obj ''key_points'' = Inr k)"
proof
  assume es: "expected_shape response"
  then obtain outer where 1: "response = PyDict outer"
    by (cases response) (simp_all add: expected_shape_def)
  from es 1 obtain v where 2: "map_of outer ''results'' = Some v"
    by (cases "map_of outer ''results''") (simp_all add: expected_shape_def)
  from es 1 2 obtain results where 3: "v = PyDict results"
    by (cases v) (simp_all add: expected_shape_def)
  from es 1 2 3 obtain w where 4: "map_of results ''summarize_text'' = Some w"
    by (cases "map_of results ''summarize_text''") (simp_all add: expected_shape_def)
  from es 1 2 3 4 obtain cls attrs where 5: "w = PyObj cls attrs"
    by (cases w) (simp_all add: expected_shape_def)
  from es 1 2 3 4 5 obtain s k where
    6: "map_of attrs ''summary'' = Some s" "map_of attrs ''key_points'' = Some k"
    by (auto simp: expected_shape_def)
  from 1 2 3 4 5 6 have "results_object response = Inr (PyObj cls attrs) \<and>
      py_getattr (PyObj cls attrs) ''summary'' = Inr s \<and>
      py_getattr (PyObj cls attrs) ''key_points'' = Inr k"
    by (simp add: results_object_Inr)
  then show "\<exists>obj s k. results_object response = Inr obj \<and> py_getattr obj ''summary'' = Inr s \<and>
        py_getattr obj ''key_points'' = Inr k"
    by blast
next
  assume "\<exists>obj s k. results_object response = Inr obj \<and> py_getattr obj ''summary'' = Inr s \<and>
        py_getattr obj ''key_points'' = Inr k"
  then obtain outer results cls attrs s k where
    "response = PyDict outer" "map_of outer ''results'' = Some (PyDict results)"
    "map_of results ''summarize_text'' = Some (PyObj cls attrs)"
    "map_of attrs ''summary'' = Some s" "map_of attrs ''key_points'' = Some k"
    by (auto simp: results_object_Inr py_getattr_Inr)
  then show "expected_shape response"
    by (simp add: expected_shape_def)
qed

lemma run_ai_analysis_Inr:
  "fst (run_ai_analysis rd key service) = Inr res \<longleftrightarrow>
     (\<exists>response obj. service (ai_request rd key) = Inr response \<and>
        results_object response = Inr obj \<and>
        py_getattr obj ''summary'' = Inr (overview res) \<and>
        py_getattr obj ''key_points'' = Inr (features res))"
  by (cases res) (auto simp: run_ai_analysis_def Let_def split: sum.splits)

lemma run_ai_analysis_fails:
  assumes "service (ai_request rd key) = Inr response" and "\<not> expected_shape response"
  shows "\<exists>d. fst (run_ai_analysis rd key service) = Inl (Exception (ai_error_prefix @ d))"
proof (cases "fst (run_ai_analysis rd key service)")
  case (Inl err)
  then show ?thesis
    using assms(1) by (auto simp: run_ai_analysis_def Let_def ai_error_def split: sum.splits)
next
  case (Inr res)
  then have "expected_shape response"
    using assms(1) unfolding run_ai_analysis_Inr expected_shape_lookups by auto
  with assms(2) show ?thesis by simp
qed

lemma summary_response_shape:
  "expected_shape (summary_response attrs) \<longleftrightarrow>
     map_of attrs ''summary'' \<noteq> None \<and> map_of attrs ''key_points'' \<noteq> None"
  by (simp add: expected_shape_def summary_response_def)

lemma results_object_summary_response:
  "results_object (summary_response attrs) = Inr (PyObj ''SummaryResult'' attrs)"
  by (simp add: results_object_def summary_response_def)

text \<open>
  Claim C5. The function sends exactly one request, whatever the outcome. If the round
  trip raises (a transport failure, a rejected key), or if the value it returns is not of
  the expected shape, in particular if the summary object has no \<^verbatim>\<open>key_points\<close>
  attribute, the function raises the one \<^verbatim>\<open>Exception\<close> whose message is the fixed
  user-facing text followed by the details, and returns no result.
\<close>

theorem ai_failure_raises_one_error:
  "snd (run_ai_analysis rd key service) = [ai_request rd key] \<and>
   (service (ai_request rd key) = Inl details \<longrightarrow>
      fst (run_ai_analysis rd key service) = Inl (Exception (ai_error_prefix @ details))) \<and>
   (service (ai_request rd key) = Inr response \<and> \<not> expected_shape response \<longrightarrow>
      (\<exists>d. fst (run_ai_analysis rd key service) = Inl (Exception (ai_error_prefix @ d)))) \<and>
   (service (ai_request rd key) = Inr (summary_response attrs) \<and>
      map_of attrs ''key_points'' = None \<longrightarrow>
      (\<exists>d. fst (run_ai_analysis rd key service) = Inl (Exception (ai_error_prefix @ d))))"
proof (intro conjI impI)
  show "snd (run_ai_analysis rd key service) = [ai_request rd key]"
    by (simp add: run_ai_analysis_def Let_def)
  show "fst (run_ai_analysis rd key service) = Inl (Exception (ai_error_prefix @ details))"
    if "service (ai_request rd key) = Inl details"
    using that by (simp add: run_ai_analysis_def Let_def ai_error_def)
  show "\<exists>d. fst (run_ai_analysis rd key service) = Inl (Exception (ai_error_prefix @ d))"
    if "service (ai_request rd key) = Inr response \<and> \<not> expected_shape response"
    using that run_ai_analysis_fails by blast
  show "\<exists>d. fst (run_ai_analysis rd key service) = Inl (Exception (ai_error_prefix @ d))"
    if "service (ai_request rd key) = Inr (summary_response attrs) \<and>
      map_of attrs ''key_points'' = None"
  proof -
    have "\<not> expected_shape (summary_response attrs)"
      using that by (simp add: summary_response_shape)
    with that show ?thesis
      using run_ai_analysis_fails by blast
  qed
qed

text \<open>
  Claim C2, as amended. When the call succeeds, the overview and the key points of the
  result are the attributes \<^verbatim>\<open>summary\<close> and \<^verbatim>\<open>key_points\<close> of the summary object of the
  response, as they are. The key points are not inspected: a response whose
  \<^verbatim>\<open>key_points\<close> is the empty list makes the call succeed with empty key points.
\<close>

theorem ai_success_passes_key_points_through:
  "(fst (run_ai_analysis rd key service) = Inr res \<longrightarrow>
      (\<exists>response obj. service (ai_request rd key) = Inr response \<and>
         results_object response = Inr obj \<and>
         py_getattr obj ''summary'' = Inr (overview res) \<and>
         py_getattr obj ''key_points'' = Inr (features res))) \<and>
   (service (ai_request rd key) = Inr (summary_response attrs) \<and>
      map_of attrs ''summary'' = Some summary \<and> map_of attrs ''key_points'' = Some (PyList []) \<longrightarrow>
      fst (run_ai_analysis rd key service) = Inr \<lparr>overview = summary, features = PyList []\<rparr>)"
proof (intro conjI impI)
  assume "fst (run_ai_analysis rd key service) = Inr res"
  then show "\<exists>response obj. service (ai_request rd key) = Inr response \<and>
         results_object response = Inr obj \<and>
         py_getattr obj ''summary'' = Inr (overview res) \<and>
         py_getattr obj ''key_points'' = Inr (features res)"
    by (simp only: run_ai_analysis_Inr)
next
  assume "service (ai_request rd key) = Inr (summary_response attrs) \<and>
      map_of attrs ''summary'' = Some summary \<and> map_of attrs ''key_points'' = Some (PyList [])"
  then show "fst (run_ai_analysis rd key service) = Inr \<lparr>overview = summary, features = PyList []\<rparr>"
    by (simp add: run_ai_analysis_def Let_def results_object_summary_response)
qed

subsection \<open>The prompt\<close>

lemma foldl_blocks:
  "foldl (\<lambda>context (p, content). context @ file_block p content) init files
     = init @ concat (map (\<lambda>(p, content). file_block p content) files)"
  by (induction files arbitrary: init) (simp_all split: prod.split)

lemma too_large_default: "too_large 15000 = ''--- File content too large (>15000 bytes) ---''"
  by (simp add: too_large_def str_int_def str_nat.simps)

text \<open>
  Claim C7. The context is the header followed by one block per file, in the order of
  the dictionary, and it is passed on in the request. In a file's block the content
  portion lies between the start line and the end line; it is the first 1500 characters
  of the content, hence at most 1500 characters long, and the whole content when that has
  at most 1500 characters. The two placeholder texts of \<^verbatim>\<open>fetch_repo_data\<close> appear in
  full.
\<close>

theorem prompt_content_portion_bounded:
  "build_context rd =
     context_header rd @ concat (map (\<lambda>(p, content). file_block p content) (rd_important_files rd)) \<and>
   objective (ai_request rd key) =
     ''Please provide a comprehensive analysis of the following repository context:'' @ nl @
     build_context rd \<and>
   file_block p content =
     nl @ ''--- Start of '' @ p @ '' ---'' @ nl @ content_portion content @
     nl @ ''--- End of '' @ p @ '' ---'' @ nl \<and>
   content_portion content = take 1500 content \<and>
   length (content_portion content) \<le> 1500 \<and>
   (length content \<le> 1500 \<longrightarrow> content_portion content = content) \<and>
   content_portion could_not_decode = could_not_decode \<and>
   content_portion (too_large 15000) = too_large 15000"
proof -
  have p: "content_portion c = take 1500 c" for c
    by (simp add: content_portion_def slice_to_def)
  have "length could_not_decode \<le> 1500" "length (too_large 15000) \<le> 1500"
    by (simp_all add: could_not_decode_def too_large_default)
  then have "content_portion could_not_decode = could_not_decode"
    "content_portion (too_large 15000) = too_large 15000"
    unfolding p by simp_all
  moreover have "build_context rd =
     context_header rd @ concat (map (\<lambda>(p, content). file_block p content) (rd_important_files rd))"
    unfolding build_context_def by (rule foldl_blocks)
  moreover have "objective (ai_request rd key) =
     ''Please provide a comprehensive analysis of the following repository context:'' @ nl @
     build_context rd"
    by (simp add: ai_request_def)
  moreover have "file_block p content =
     nl @ ''--- Start of '' @ p @ '' ---'' @ nl @ content_portion content @
     nl @ ''--- End of '' @ p @ '' ---'' @ nl"
    by (simp add: file_block_def)
  moreover have "length (content_portion content) \<le> 1500"
    unfolding p by simp
  moreover have "length content \<le> 1500 \<longrightarrow> content_portion content = content"
    unfolding p by simp
  ultimately show ?thesis
    using p by blast
qed

text \<open>
  Claim C6, amended, at a repository that is not found, a rejected token and a server
  error.
\<close>

theorem fetch_repo_data_distinguishes_status_witness:
  "fst (fetch_repo_data (\<lambda>n. Inl \<lparr>status = 404, str_e = ''404 Not Found''\<rparr>) ''octocat/none'')
     = Inl (Exception not_found_message) \<and>
   fst (fetch_repo_data (\<lambda>n. Inl \<lparr>status = 401, str_e = ''401 Bad credentials''\<rparr>) ''octocat/none'')
     = Inl (Exception authentication_message) \<and>
   fst (fetch_repo_data (\<lambda>n. Inl \<lparr>status = 500, str_e = ''500 Server Error''\<rparr>) ''octocat/none'')
     = Inl (Exception ''Error fetching repo data: 500 Server Error'')"
proof -
  let ?e4 = "\<lparr>status = 404, str_e = ''404 Not Found''\<rparr>"
  let ?e1 = "\<lparr>status = 401, str_e = ''401 Bad credentials''\<rparr>"
  let ?e5 = "\<lparr>status = 500, str_e = ''500 Server Error''\<rparr>"
  have s4: "status ?e4 = 404" and s1: "status ?e1 = 401"
    and s5: "status ?e5 \<noteq> 404 \<and> status ?e5 \<noteq> 401"
    by simp_all
  note t4 = fetch_repo_data_distinguishes_status[of "\<lambda>n. Inl ?e4" "''octocat/none''" ?e4]
  note t1 = fetch_repo_data_distinguishes_status[of "\<lambda>n. Inl ?e1" "''octocat/none''" ?e1]
  note t5 = fetch_repo_data_distinguishes_status[of "\<lambda>n. Inl ?e5" "''octocat/none''" ?e5]
  have a: "fst (fetch_repo_data (\<lambda>n. Inl ?e4) ''octocat/none'') = Inl (Exception not_found_message)"
    using mp[OF conjunct1[OF t4]] mp[OF conjunct1[OF conjunct2[OF t4]] s4] by simp
  have b: "fst (fetch_repo_data (\<lambda>n. Inl ?e1) ''octocat/none'') = Inl (Exception authentication_message)"
    using mp[OF conjunct1[OF t1]] mp[OF conjunct1[OF conjunct2[OF conjunct2[OF t1]]] s1] by simp
  have c: "fst (fetch_repo_data (\<lambda>n. Inl ?e5) ''octocat/none'')
      = Inl (Exception (''Error fetching repo data: '' @ str_e ?e5))"
    using mp[OF conjunct1[OF t5]]
      mp[OF conjunct1[OF conjunct2[OF conjunct2[OF conjunct2[OF t5]]]] s5] by simp
  from a b c show ?thesis by simp
qed

text \<open>
  Claim C6 as worded fails for a forge failure of the root listing or of a file's
  content: with status 404 on the listing, and with status 401 on the content of
  \<^verbatim>\<open>README.md\<close>, \<^verbatim>\<open>fetch_repo_data\<close> raises nothing and returns its dictionary.
\<close>

theorem listing_failure_not_raised_counterexample:
  "fetch_repo_data (demo_github (Inl \<lparr>status = 404, str_e = ''404 Not Found''\<rparr>))
     ''octocat/hello-world''
     = (Inr (demo_repo_data\<lparr>rd_important_files := []\<rparr>),
        [''Could not fetch some file contents: 404 Not Found'']) \<and>
   fetch_repo_data
     (demo_github (Inr [demo_file ''README.md'' 10
        (GithubException \<lparr>status = 401, str_e = ''401 Bad credentials''\<rparr>)]))
     ''octocat/hello-world''
     = (Inr (demo_repo_data\<lparr>rd_important_files := [(''README.md'', could_not_decode)]\<rparr>), [])"
  by (simp add: fetch_repo_data_def demo_github_def demo_repo_data_def demo_simps py_or_def)

text \<open>Claim C9 at a repository without description and primary language.\<close>

theorem fetch_repo_data_defaults_witness:
  "\<exists>rd w. fetch_repo_data
       (\<lambda>n. Inr ((demo_repo (Inr []))\<lparr>repo_description := None, repo_language := None\<rparr>))
       ''octocat/hello-world'' = (Inr rd, w) \<and>
     rd_description rd = ''No description provided.'' \<and> rd_language rd = ''Not specified'' \<and>
     rd_name rd = ''hello-world'' \<and> rd_owner rd = ''octocat'' \<and> rd_stars rd = 3 \<and>
     rd_topics rd = [''demo''] \<and> rd_tech_stack rd = [''Ruby'']"
proof -
  let ?r = "(demo_repo (Inr []))\<lparr>repo_description := None, repo_language := None\<rparr>"
  have g: "(\<lambda>n::string. (Inr ?r :: github_exception + repository)) ''octocat/hello-world'' = Inr ?r"
    by simp
  have l: "get_languages ?r = Inr [(''Ruby'', 200)]" and t: "get_topics ?r = Inr [''demo'']"
    and n: "repo_description ?r = None" "repo_language ?r = None"
    and f: "repo_name ?r = ''hello-world''" "repo_owner_login ?r = ''octocat''"
      "repo_stargazers_count ?r = 3"
    by (simp_all add: demo_repo_def)
  have i: "get_important_file_content ?r 7 15000
      = Inr \<lparr>file_contents = [], fetched = [], warnings = []\<rparr>"
    by (simp add: demo_simps)
  from fetch_repo_data_defaults[of "\<lambda>n. Inr ?r" "''octocat/hello-world''", OF g l t i]
  show ?thesis
  proof (elim exE conjE)
    fix rd w
    assume "fetch_repo_data (\<lambda>n. Inr ?r) ''octocat/hello-world'' = (Inr rd, w)"
      and "repo_description ?r = None \<longrightarrow> rd_description rd = ''No description provided.''"
      and "repo_language ?r = None \<longrightarrow> rd_language rd = ''Not specified''"
      and "rd_name rd = repo_name ?r" and "rd_owner rd = repo_owner_login ?r"
      and "rd_stars rd = repo_stargazers_count ?r" and "rd_topics rd = [''demo'']"
      and "rd_tech_stack rd = map fst [(''Ruby'', 200::int)]"
    with n f have "fetch_repo_data (\<lambda>n. Inr ?r) ''octocat/hello-world'' = (Inr rd, w) \<and>
       rd_description rd = ''No description provided.'' \<and> rd_language rd = ''Not specified'' \<and>
       rd_name rd = ''hello-world'' \<and> rd_owner rd = ''octocat'' \<and> rd_stars rd = 3 \<and>
       rd_topics rd = [''demo''] \<and> rd_tech_stack rd = [''Ruby'']"
      by simp
    then show ?thesis
      by (intro exI)
  qed
qed

text \<open>
  Claim C5 at a service that answers without \<^verbatim>\<open>key_points\<close> and at one whose round
  trip raises.
\<close>

theorem ai_failure_raises_one_error_witness:
  "snd (run_ai_analysis demo_repo_data ''k'' no_key_points_service) = [ai_request demo_repo_data ''k''] \<and>
   (\<exists>d. fst (run_ai_analysis demo_repo_data ''k'' no_key_points_service)
          = Inl (Exception (ai_error_prefix @ d))) \<and>
   fst (run_ai_analysis demo_repo_data ''k'' (\<lambda>req. Inl ''401 Unauthorized''))
     = Inl (Exception (ai_error_prefix @ ''401 Unauthorized''))"
proof -
  let ?attrs = "[(''summary'', PyStr ''A demo repository'')]"
  have n: "no_key_points_service (ai_request demo_repo_data ''k'') = Inr (summary_response ?attrs) \<and>
           map_of ?attrs ''key_points'' = None"
    by (simp add: no_key_points_service_def)
  have r: "(\<lambda>req::request. (Inl ''401 Unauthorized'' :: string + pyval)) (ai_request demo_repo_data ''k'')
             = Inl ''401 Unauthorized''"
    by simp
  from ai_failure_raises_one_error[of demo_repo_data "''k''" no_key_points_service _ _ ?attrs] n
  have a: "snd (run_ai_analysis demo_repo_data ''k'' no_key_points_service) = [ai_request demo_repo_data ''k'']"
    and b: "\<exists>d. fst (run_ai_analysis demo_repo_data ''k'' no_key_points_service)
          = Inl (Exception (ai_error_prefix @ d))"
    by blast+
  from ai_failure_raises_one_error
    [of demo_repo_data "''k''" "\<lambda>req. Inl ''401 Unauthorized''" "''401 Unauthorized''"] r
  have c: "fst (run_ai_analysis demo_repo_data ''k'' (\<lambda>req. Inl ''401 Unauthorized''))
     = Inl (Exception (ai_error_prefix @ ''401 Unauthorized''))"
    by blast
  from a b c show ?thesis by blast
qed

text \<open>Claim C2, amended, at the service that answers with two key points.\<close>

theorem ai_success_passes_key_points_through_witness:
  "\<exists>response obj. demo_service (ai_request demo_repo_data ''k'') = Inr response \<and>
     results_object response = Inr obj \<and>
     py_getattr obj ''summary'' = Inr (PyStr ''A demo repository'') \<and>
     py_getattr obj ''key_points'' = Inr (PyList [PyStr ''Simple structure'', PyStr ''Ruby based''])"
proof -
  let ?res = "\<lparr>overview = PyStr ''A demo repository'',
               features = PyList [PyStr ''Simple structure'', PyStr ''Ruby based'']\<rparr>"
  have "fst (run_ai_analysis demo_repo_data ''k'' demo_service) = Inr ?res"
    by (simp add: run_ai_analysis_def Let_def demo_service_def results_object_summary_response)
  with ai_success_passes_key_points_through[of demo_repo_data "''k''" demo_service ?res]
  have "\<exists>response obj. demo_service (ai_request demo_repo_data ''k'') = Inr response \<and>
     results_object response = Inr obj \<and>
     py_getattr obj ''summary'' = Inr (overview ?res) \<and>
     py_getattr obj ''key_points'' = Inr (features ?res)"
    by blast
  then show ?thesis by simp
qed

text \<open>
  Claim C2 as worded fails: the service answers with a summary and an empty list of key
  points, and the call succeeds with empty key points instead of raising.
\<close>

theorem ai_empty_key_points_counterexample:
  "fst (run_ai_analysis demo_repo_data ''k'' empty_key_points_service)
     = Inr \<lparr>overview = PyStr ''A demo repository'', features = PyList []\<rparr>"
  by (simp add: run_ai_analysis_def Let_def empty_key_points_service_def
      results_object_summary_response)

text \<open>Claim C7 at the context of the scenario, with the file \<^verbatim>\<open>README.md\<close>.\<close>

theorem prompt_content_portion_bounded_witness:
  "build_context demo_repo_data = context_header demo_repo_data @ file_block ''README.md'' ''Hello'' \<and>
   length (content_portion ''Hello'') \<le> 1500 \<and> content_portion ''Hello'' = ''Hello''"
proof -
  have h: "length ''Hello'' \<le> 1500"
    by simp
  have f: "rd_important_files demo_repo_data = [(''README.md'', ''Hello'')]"
    by (simp add: demo_repo_data_def)
  from prompt_content_portion_bounded[of demo_repo_data "''k''" "''README.md''" "''Hello''"] h
  have "build_context demo_repo_data =
     context_header demo_repo_data @
       concat (map (\<lambda>(p, content). file_block p content) (rd_important_files demo_repo_data))"
    and "length (content_portion ''Hello'') \<le> 1500" and "content_portion ''Hello'' = ''Hello''"
    by blast+
  then show ?thesis
    unfolding f by simp
qed

end
